theory Spec2Isabelle
  imports Main "HOL-Library.Sublist"
begin

section \<open>JavaScript strings\<close>

text \<open>
  The SQLite query generator (src/dialects/sqlite/query-generator.js) builds SQL text
  with the string operations of JavaScript. A string is modelled as a \<^typ>\<open>string\<close>,
  a list of 8-bit code units; the texts the generator handles (SQL keywords, quoting
  characters, punctuation) are ASCII. Each operation below is the JavaScript method of
  the same name, with the receiver as first argument.
\<close>

text \<open>\<^verbatim>\<open>s.includes(p)\<close>: \<open>p\<close> occurs in \<open>s\<close> as a contiguous block.\<close>

definition str_includes :: "string \<Rightarrow> string \<Rightarrow> bool" where
  "str_includes s p = sublist p s"

text \<open>\<^verbatim>\<open>s.indexOf(p)\<close>: the position of the first occurrence, \<open>-1\<close> when there is none.\<close>

fun indexOf :: "string \<Rightarrow> string \<Rightarrow> int" where
  "indexOf [] p = (if p = [] then 0 else - 1)"
| "indexOf (c # s) p =
     (if prefix p (c # s) then 0
      else (let i = indexOf s p in if i < 0 then - 1 else i + 1))"

text \<open>\<^verbatim>\<open>s.slice(i)\<close>: the text from position \<open>i\<close> on; a negative \<open>i\<close> counts from the end.\<close>

definition slice :: "string \<Rightarrow> int \<Rightarrow> string" where
  "slice s i = (if i < 0 then drop (nat (int (length s) + i)) s else drop (nat i) s)"

text \<open>
  \<^verbatim>\<open>s.replace(p, r)\<close> with a string pattern \<open>p\<close>: only the first occurrence of \<open>p\<close> is
  replaced (the replacement texts used by the generator contain no \<^verbatim>\<open>$\<close>).
\<close>

fun str_replace :: "string \<Rightarrow> string \<Rightarrow> string \<Rightarrow> string" where
  "str_replace [] p r = (if p = [] then r else [])"
| "str_replace (c # s) p r =
     (if prefix p (c # s) then r @ drop (length p) (c # s) else c # str_replace s p r)"

text \<open>\<^verbatim>\<open>xs.join(sep)\<close>.\<close>

fun join :: "string \<Rightarrow> string list \<Rightarrow> string" where
  "join sep [] = []"
| "join sep [x] = x"
| "join sep (x # y # ys) = x @ sep @ join sep (y # ys)"

text \<open>
  White space as \<^verbatim>\<open>\s\<close> and \<^verbatim>\<open>trim()\<close> see it, among 8-bit code units: tab, line feed,
  vertical tab, form feed, carriage return, space and no-break space.
\<close>

definition isSpace :: "char \<Rightarrow> bool" where
  "isSpace c = (c \<in> set [CHR 0x09, CHR 0x0A, CHR 0x0B, CHR 0x0C, CHR 0x0D, CHR 0x20, CHR 0xA0])"

definition trim :: "string \<Rightarrow> string" where
  "trim s = rev (dropWhile isSpace (rev (dropWhile isSpace s)))"

section \<open>Quoting identifiers\<close>

definition tick :: char where
  "tick = CHR 0x60"

text \<open>
  Modelled from the spec: \<^verbatim>\<open>Utils.removeTicks(s, tickChar)\<close> is defined in the utils module,
  which is not among the sources. The specification has no sentence on the helper itself;
  it is modelled as its name and its use say: \<^verbatim>\<open>quoteIdentifier\<close> applies it to the raw
  identifier before the ticks are added, and it deletes every occurrence of the tick
  character. (Section 4.1 of the specification describes \<^verbatim>\<open>quoteIdentifier\<close> as escaping
  by doubling; a helper that removes ticks cannot do that, and claim C10 describes the
  removal.)
\<close>

definition removeTicks :: "string \<Rightarrow> char \<Rightarrow> string" where
  "removeTicks s tickChar = filter (\<lambda>c. c \<noteq> tickChar) s"

text \<open>
  Modelled from the spec: \<^verbatim>\<open>Utils.addTicks(s, tickChar)\<close>, from the same absent module,
  puts the tick character before and after the text, from which it first removes the
  tick character itself.
\<close>

definition addTicks :: "string \<Rightarrow> char \<Rightarrow> string" where
  "addTicks s tickChar = tickChar # removeTicks s tickChar @ [tickChar]"

text \<open>
  \<^verbatim>\<open>quoteIdentifier(identifier, force)\<close>, lines 526 to 528:
  \<^verbatim>\<open>return Utils.addTicks(Utils.removeTicks(identifier, '`'), '`');\<close>
\<close>

definition quoteIdentifier :: "string \<Rightarrow> string" where
  "quoteIdentifier identifier = addTicks (removeTicks identifier tick) tick"

text \<open>
  The reading of a quoted identifier that the specification has in mind: strip the outer
  quote characters, then collapse each doubled quote character into one.
\<close>

fun collapseDoubled :: "char \<Rightarrow> string \<Rightarrow> string" where
  "collapseDoubled q (a # b # s) =
     (if a = q \<and> b = q then q # collapseDoubled q s else a # collapseDoubled q (b # s))"
| "collapseDoubled q s = s"

definition spec_unquoteIdentifier :: "string \<Rightarrow> string" where
  "spec_unquoteIdentifier t = collapseDoubled tick (butlast (tl t))"

text \<open>The quoting that the specification describes: each embedded quote character doubled.\<close>

definition spec_quoteByDoubling :: "string \<Rightarrow> string" where
  "spec_quoteByDoubling s = tick # concat (map (\<lambda>c. if c = tick then [tick, tick] else [c]) s) @ [tick]"

section \<open>Boolean defaults\<close>

text \<open>
  \<^verbatim>\<open>replaceBooleanDefaults(sql)\<close>, lines 490 to 492:
  \<^verbatim>\<open>sql.replace(/DEFAULT '?false'?/g, 'DEFAULT 0').replace(/DEFAULT '?true'?/g, 'DEFAULT 1')\<close>.
  Both regular expressions have the shape \<^verbatim>\<open>DEFAULT '?lit'?\<close>. \<open>optQuote\<close> is the greedy
  optional quote; \<open>matchDefault lit s\<close> matches the expression at the start of \<open>s\<close> and
  returns the text after the match. Its second branch is the backtracking step of the
  regular-expression engine (the first optional quote matching the empty text).
\<close>

definition optQuote :: "string \<Rightarrow> string" where
  "optQuote s = (case s of c # r \<Rightarrow> if c = CHR 0x27 then r else s | [] \<Rightarrow> s)"

definition matchDefault :: "string \<Rightarrow> string \<Rightarrow> string option" where
  "matchDefault lit s =
     (if prefix ''DEFAULT '' s then
        (let s1 = drop 8 s in
         if prefix lit (optQuote s1) then Some (optQuote (drop (length lit) (optQuote s1)))
         else if prefix lit s1 then Some (optQuote (drop (length lit) s1))
         else None)
      else None)"

lemma optQuote_length: "length (optQuote s) \<le> length s"
  by (simp add: optQuote_def split: list.splits)

lemma matchDefault_shorter: "matchDefault lit s = Some rest \<Longrightarrow> length rest < length s"
proof -
  assume m: "matchDefault lit s = Some rest"
  then have p: "prefix ''DEFAULT '' s"
    by (simp add: matchDefault_def split: if_splits)
  then have l: "8 \<le> length s"
    using prefix_length_le by fastforce
  have "length rest \<le> length (drop 8 s)"
    using m p optQuote_length[of "drop (length lit) (optQuote (drop 8 s))"]
      optQuote_length[of "drop 8 s"] optQuote_length[of "drop (length lit) (drop 8 s)"]
    by (auto simp: matchDefault_def Let_def split: if_splits)
  with l show ?thesis by simp
qed

text \<open>
  The global replacement: matches are found from left to right on the original text, the
  search goes on after the end of each match, and the replacement text is not searched
  again.
\<close>

function replaceDefault :: "string \<Rightarrow> string \<Rightarrow> string \<Rightarrow> string" where
  "replaceDefault lit rep [] = []"
| "replaceDefault lit rep (c # s) =
     (case matchDefault lit (c # s) of
        Some rest \<Rightarrow> rep @ replaceDefault lit rep rest
      | None \<Rightarrow> c # replaceDefault lit rep s)"
  by pat_completeness auto
termination
  by (relation "measure (\<lambda>(lit, rep, s). length s)") (auto dest: matchDefault_shorter)

definition replaceBooleanDefaults :: "string \<Rightarrow> string" where
  "replaceBooleanDefaults sql =
     replaceDefault ''true'' ''DEFAULT 1'' (replaceDefault ''false'' ''DEFAULT 0'' sql)"

text \<open>
  \<open>noMatch lit s\<close>: the expression \<^verbatim>\<open>DEFAULT '?lit'?\<close> matches at no position of \<open>s\<close>.
\<close>

fun noMatch :: "string \<Rightarrow> string \<Rightarrow> bool" where
  "noMatch lit [] = True"
| "noMatch lit (c # s) = (matchDefault lit (c # s) = None \<and> noMatch lit s)"

section \<open>Values, table names and the inherited generator\<close>

text \<open>
  The JavaScript values that reach the generator as option values, defaults and column
  values. \<open>Object\<close> stands for any object (a date, a Sequelize method, a function), told
  apart by a number. \<open>truthy\<close> is the conversion to a boolean that \<^verbatim>\<open>if (x)\<close> and
  \<^verbatim>\<open>x ? a : b\<close> apply.
\<close>

datatype js_value = Undefined | Null | Boolean bool | Number int | String string | Object nat

fun truthy :: "js_value \<Rightarrow> bool" where
  "truthy Undefined = False"
| "truthy Null = False"
| "truthy (Boolean b) = b"
| "truthy (Number n) = (n \<noteq> 0)"
| "truthy (String s) = (s \<noteq> [])"
| "truthy (Object a) = True"

text \<open>
  A table name is a string or an object with the properties \<^verbatim>\<open>tableName\<close>, \<^verbatim>\<open>schema\<close>
  and, possibly, \<^verbatim>\<open>delimiter\<close> (the three arguments of \<open>TableObject\<close>).
\<close>

datatype table_ref = TableName string | TableObject string "string option" "string option"

text \<open>
  \<^verbatim>\<open>SqliteQueryGenerator\<close> extends the MySQL and abstract generators, which are not among
  the sources. The methods and options it takes from them are the fields of the record
  \<open>generator\<close>, a parameter of every function below; nothing is assumed about them.
  \<open>'w\<close> is the type of where-conditions, \<open>'b\<close> the state of the bind-parameter sink that
  \<^verbatim>\<open>format\<close> and \<^verbatim>\<open>whereQuery\<close> write to. The context arguments that the source passes
  to \<^verbatim>\<open>escape\<close> and \<^verbatim>\<open>format\<close> (the attribute, the options) are part of the parameter.
\<close>

record query_options =
  limit :: js_value
  bindParam :: js_value
  omitNull :: js_value

record ('w, 'b) generator =
  quoteTable :: "table_ref \<Rightarrow> string"
  escape :: "js_value \<Rightarrow> string"
  format :: "js_value \<Rightarrow> 'b \<Rightarrow> string \<times> 'b"
  whereQuery :: "'w \<Rightarrow> 'b \<Rightarrow> string \<times> 'b"
  getWhereConditions :: "'w \<Rightarrow> string"
  isSequelizeMethod :: "js_value \<Rightarrow> bool"
  removeNullishValuesFromHash ::
    "(string \<times> js_value) list \<Rightarrow> js_value \<Rightarrow> (string \<times> js_value) list"
  defaultValueSchemable :: "js_value \<Rightarrow> bool"
  toUpperCase :: "string \<Rightarrow> string"
  options :: query_options

text \<open>
  An object used as a dictionary (the attributes of a table, a hash of values) is the list
  of its properties in the order in which \<^verbatim>\<open>for ... in\<close>, \<^verbatim>\<open>Object.keys\<close> and
  \<^verbatim>\<open>Object.values\<close> enumerate them: first the names that are array indices, in
  ascending numeric order, then the other names in the order of their creation. An array
  index is the decimal text, without leading zeros, of a number below \<open>2 ^ 32 - 1\<close>.
\<close>

definition isDigit :: "char \<Rightarrow> bool" where
  "isDigit c = ((48::nat) \<le> of_char c \<and> of_char c \<le> (57::nat))"

definition indexValue :: "string \<Rightarrow> nat" where
  "indexValue k = foldl (\<lambda>n c. 10 * n + (of_char c - 48)) 0 k"

definition isArrayIndex :: "string \<Rightarrow> bool" where
  "isArrayIndex k =
     (k \<noteq> [] \<and> list_all isDigit k \<and> (k = ''0'' \<or> hd k \<noteq> CHR ''0'')
      \<and> indexValue k < 2 ^ 32 - 1)"

text \<open>
  \<open>js_put\<close> is the assignment \<^verbatim>\<open>obj[k] = v\<close> of a primitive value (here always a text)
  to a property of an object that was created by \<^verbatim>\<open>{}\<close>. The name \<^verbatim>\<open>__proto__\<close> is the
  accessor of the prototype, which ignores a primitive value: no property is created. An
  existing property keeps its place; a new array index goes to its numeric place among
  the array indices; any other new name goes last.
\<close>

definition js_put :: "(string \<times> 'a) list \<Rightarrow> string \<Rightarrow> 'a \<Rightarrow> (string \<times> 'a) list" where
  "js_put obj k v =
     (if k = ''__proto__'' then obj
      else if k \<in> set (map fst obj) then map (\<lambda>e. if fst e = k then (k, v) else e) obj
      else if isArrayIndex k then
        takeWhile (\<lambda>e. isArrayIndex (fst e) \<and> indexValue (fst e) < indexValue k) obj
        @ [(k, v)]
        @ dropWhile (\<lambda>e. isArrayIndex (fst e) \<and> indexValue (fst e) < indexValue k) obj
      else obj @ [(k, v)])"

text \<open>
  The names for which an object is a plain dictionary: every name but the array indices
  and \<^verbatim>\<open>__proto__\<close>.
\<close>

definition ordinaryName :: "string \<Rightarrow> bool" where
  "ordinaryName k = (\<not> isArrayIndex k \<and> k \<noteq> ''__proto__'')"

section \<open>CREATE TABLE\<close>

text \<open>
  The body of the loop of \<^verbatim>\<open>createTableQuery\<close> (lines 35 to 57) computes
  \<^verbatim>\<open>dataTypeString\<close> from the column definition \<^verbatim>\<open>dataType\<close> and the flag
  \<^verbatim>\<open>needsMultiplePrimaryKeys\<close>. The assignments of the second \<^verbatim>\<open>if\<close> overwrite those of
  the first.
\<close>

definition dataTypeString :: "bool \<Rightarrow> string \<Rightarrow> string" where
  "dataTypeString needsMultiplePrimaryKeys dataType =
     (let containsAutoIncrement = str_includes dataType ''AUTOINCREMENT'' in
      if str_includes dataType ''PRIMARY KEY'' then
        (let s1 =
           (if str_includes dataType ''INT'' then
              (let s0 = (if containsAutoIncrement then ''INTEGER PRIMARY KEY AUTOINCREMENT''
                         else ''INTEGER PRIMARY KEY'')
               in if str_includes dataType '' REFERENCES''
                  then s0 @ slice dataType (indexOf dataType '' REFERENCES'') else s0)
            else dataType)
         in if needsMultiplePrimaryKeys then
              (if str_includes dataType ''NOT NULL'' then str_replace dataType '' PRIMARY KEY'' []
               else str_replace dataType ''PRIMARY KEY'' ''NOT NULL'')
            else s1)
      else dataType)"

text \<open>
  One round of the loop: \<^verbatim>\<open>primaryKeys.push(attr)\<close> for a primary-key attribute when
  several are needed, and \<^verbatim>\<open>attrArray.push(...)\<close> for every attribute.
\<close>

definition createTableStep ::
  "bool \<Rightarrow> string \<times> string \<Rightarrow> string list \<times> string list \<Rightarrow> string list \<times> string list" where
  "createTableStep needsMultiplePrimaryKeys entry acc =
     (case (entry, acc) of ((attr, dataType), (primaryKeys, attrArray)) \<Rightarrow>
        (if str_includes dataType ''PRIMARY KEY'' \<and> needsMultiplePrimaryKeys
         then primaryKeys @ [attr] else primaryKeys,
         attrArray @ [quoteIdentifier attr @ '' '' @ dataTypeString needsMultiplePrimaryKeys dataType]))"

text \<open>\<^verbatim>\<open>createTableQuery(tableName, attributes, options)\<close>, lines 26 to 95.\<close>

definition createTableQuery ::
  "('w, 'b) generator \<Rightarrow> table_ref \<Rightarrow> (string \<times> string) list \<Rightarrow> string" where
  "createTableQuery this tableName attributes =
     (let needsMultiplePrimaryKeys =
            1 < length (filter (\<lambda>d. str_includes d ''PRIMARY KEY'') (map snd attributes));
          loop = fold (createTableStep needsMultiplePrimaryKeys) attributes ([], []);
          primaryKeys = fst loop;
          attrArray = snd loop;
          table = quoteTable this tableName;
          attrStr = join '', '' attrArray;
          pkString = join '', '' (map quoteIdentifier primaryKeys);
          attrStr2 = (if 0 < length pkString then attrStr @ '', PRIMARY KEY ('' @ pkString @ '')''
                      else attrStr);
          sql = ''CREATE TABLE IF NOT EXISTS '' @ table @ '' ('' @ attrStr2 @ '');''
      in replaceBooleanDefaults sql)"

text \<open>
  What claim C6 says of the consolidation, as a function of the column definition: the
  marker is replaced by \<^verbatim>\<open>NOT NULL\<close> if the definition already has \<^verbatim>\<open>NOT NULL\<close>, and
  removed outright otherwise.
\<close>

definition spec_stripMarker :: "string \<Rightarrow> string" where
  "spec_stripMarker dataType =
     (if str_includes dataType ''NOT NULL'' then str_replace dataType ''PRIMARY KEY'' ''NOT NULL''
      else str_replace dataType '' PRIMARY KEY'' [])"

section \<open>Attributes\<close>

text \<open>
  An attribute of a table is given either as SQL text already or as an object with the
  properties below. \<open>type\<close> is the text that \<^verbatim>\<open>dataType.type.toString()\<close> returns;
  \<open>allowNull\<close> is \<open>Some False\<close> exactly when the property is \<^verbatim>\<open>false\<close>; \<open>unique\<close> is
  true exactly when the property is \<^verbatim>\<open>true\<close>; \<open>primaryKey\<close> and \<open>autoIncrement\<close> are
  the properties converted to booleans.
\<close>

record reference =
  model :: table_ref
  key :: "string option"

record attribute =
  field :: "string option"
  type :: string
  allowNull :: "bool option"
  defaultValue :: js_value
  unique :: bool
  primaryKey :: bool
  autoIncrement :: bool
  references :: "reference option"
  onDelete :: "string option"
  onUpdate :: "string option"

datatype attribute_spec = SqlText string | AttributeObject attribute

text \<open>An optional string converted to a boolean: absent and empty strings are false.\<close>

fun present :: "string option \<Rightarrow> string option" where
  "present None = None"
| "present (Some s) = (if s = [] then None else Some s)"

text \<open>\<^verbatim>\<open>const fieldName = dataType.field || name;\<close> (a string has no such property).\<close>

fun fieldName :: "string \<Rightarrow> attribute_spec \<Rightarrow> string" where
  "fieldName name (SqlText s) = name"
| "fieldName name (AttributeObject a) = (case present (field a) of Some f \<Rightarrow> f | None \<Rightarrow> name)"

text \<open>The text built for an attribute object, lines 294 to 339.\<close>

definition attributeSQL :: "('w, 'b) generator \<Rightarrow> attribute \<Rightarrow> string" where
  "attributeSQL this dataType =
     (let sql = type dataType;
          sql = (if allowNull dataType = Some False then sql @ '' NOT NULL'' else sql);
          sql = (if defaultValueSchemable this (defaultValue dataType)
                 then sql @ '' DEFAULT '' @ escape this (defaultValue dataType) else sql);
          sql = (if unique dataType then sql @ '' UNIQUE'' else sql);
          sql = (if primaryKey dataType
                 then sql @ '' PRIMARY KEY'' @ (if autoIncrement dataType then '' AUTOINCREMENT'' else [])
                 else sql)
      in case references dataType of
           None \<Rightarrow> sql
         | Some r \<Rightarrow>
             (let referencesTable = quoteTable this (model r);
                  referencesKey = (case present (key r) of
                      Some k \<Rightarrow> quoteIdentifier k
                    | None \<Rightarrow> quoteIdentifier ''id'');
                  sql = sql @ '' REFERENCES '' @ referencesTable @ '' ('' @ referencesKey @ '')'';
                  sql = (case present (onDelete dataType) of
                      Some a \<Rightarrow> sql @ '' ON DELETE '' @ toUpperCase this a
                    | None \<Rightarrow> sql)
              in case present (onUpdate dataType) of
                   Some a \<Rightarrow> sql @ '' ON UPDATE '' @ toUpperCase this a
                 | None \<Rightarrow> sql))"

text \<open>\<^verbatim>\<open>attributesToSQL(attributes, options)\<close>, lines 287 to 348.\<close>

definition attributesToSQLStep ::
  "('w, 'b) generator \<Rightarrow> string \<times> attribute_spec \<Rightarrow> (string \<times> string) list \<Rightarrow> (string \<times> string) list" where
  "attributesToSQLStep this entry result =
     (case entry of (name, dataType) \<Rightarrow>
        js_put result (fieldName name dataType)
          (case dataType of
             AttributeObject a \<Rightarrow> attributeSQL this a
           | SqlText s \<Rightarrow> s))"

definition attributesToSQL ::
  "('w, 'b) generator \<Rightarrow> (string \<times> attribute_spec) list \<Rightarrow> (string \<times> string) list" where
  "attributesToSQL this attributes = fold (attributesToSQLStep this) attributes []"

section \<open>Recreating a table\<close>

text \<open>
  The name of the backup table, as \<^verbatim>\<open>removeColumnQuery\<close> and \<^verbatim>\<open>renameColumnQuery\<close>
  compute it: the suffix \<^verbatim>\<open>_backup\<close> on the name; of an object, the name and the schema
  only are kept.
\<close>

fun backupTableName :: "table_ref \<Rightarrow> table_ref" where
  "backupTableName (TableName n) = TableName (n @ ''_backup'')"
| "backupTableName (TableObject n sch del) = TableObject (n @ ''_backup'') sch None"

text \<open>
  \<^verbatim>\<open>removeColumnQuery(tableName, attributes)\<close>, lines 388 to 410. The result is the
  concatenation of four texts; \<open>removeColumnStatements\<close> is the list of the four.
\<close>

definition removeColumnStatements ::
  "('w, 'b) generator \<Rightarrow> table_ref \<Rightarrow> (string \<times> attribute_spec) list \<Rightarrow> string list" where
  "removeColumnStatements this tableName attributes0 =
     (let attributes = attributesToSQL this attributes0;
          quotedTableName = quoteTable this tableName;
          quotedBackupTableName = quoteTable this (backupTableName tableName);
          attributeNames = join '', '' (map quoteIdentifier (map fst attributes))
      in [createTableQuery this (backupTableName tableName) attributes,
          ''INSERT INTO '' @ quotedBackupTableName @ '' SELECT '' @ attributeNames
            @ '' FROM '' @ quotedTableName @ '';'',
          ''DROP TABLE '' @ quotedTableName @ '';'',
          ''ALTER TABLE '' @ quotedBackupTableName @ '' RENAME TO '' @ quotedTableName @ '';''])"

definition removeColumnQuery ::
  "('w, 'b) generator \<Rightarrow> table_ref \<Rightarrow> (string \<times> attribute_spec) list \<Rightarrow> string" where
  "removeColumnQuery this tableName attributes = concat (removeColumnStatements this tableName attributes)"

text \<open>
  \<^verbatim>\<open>renameColumnQuery(tableName, attrNameBefore, attrNameAfter, attributes)\<close>, lines 438
  to 465. The result is the concatenation of six texts.
\<close>

definition renameColumnStatements ::
  "('w, 'b) generator \<Rightarrow> table_ref \<Rightarrow> string \<Rightarrow> string \<Rightarrow> (string \<times> attribute_spec) list \<Rightarrow> string list" where
  "renameColumnStatements this tableName attrNameBefore attrNameAfter attributes0 =
     (let attributes = attributesToSQL this attributes0;
          quotedTableName = quoteTable this tableName;
          quotedBackupTableName = quoteTable this (backupTableName tableName);
          attributeNamesImport = join '', '' (map (\<lambda>attr.
              if attrNameAfter = attr
              then quoteIdentifier attrNameBefore @ '' AS '' @ quoteIdentifier attr
              else quoteIdentifier attr) (map fst attributes));
          attributeNamesExport = join '', '' (map quoteIdentifier (map fst attributes))
      in [createTableQuery this (backupTableName tableName) attributes,
          ''INSERT INTO '' @ quotedBackupTableName @ '' SELECT '' @ attributeNamesImport
            @ '' FROM '' @ quotedTableName @ '';'',
          ''DROP TABLE '' @ quotedTableName @ '';'',
          createTableQuery this tableName attributes,
          ''INSERT INTO '' @ quotedTableName @ '' SELECT '' @ attributeNamesExport
            @ '' FROM '' @ quotedBackupTableName @ '';'',
          ''DROP TABLE '' @ quotedBackupTableName @ '';''])"

definition renameColumnQuery ::
  "('w, 'b) generator \<Rightarrow> table_ref \<Rightarrow> string \<Rightarrow> string \<Rightarrow> (string \<times> attribute_spec) list \<Rightarrow> string" where
  "renameColumnQuery this tableName attrNameBefore attrNameAfter attributes =
     concat (renameColumnStatements this tableName attrNameBefore attrNameAfter attributes)"

text \<open>
  The last step of the sequence as claim C4 has it: the temporary table renamed to the
  original.
\<close>

definition spec_renameStatement :: "('w, 'b) generator \<Rightarrow> table_ref \<Rightarrow> string" where
  "spec_renameStatement this tableName =
     ''ALTER TABLE '' @ quoteTable this (backupTableName tableName) @ '' RENAME TO ''
       @ quoteTable this tableName @ '';''"

section \<open>UPDATE and DELETE\<close>

text \<open>
  \<^verbatim>\<open>_.defaults(options, this.options)\<close>: an option that is undefined takes the value that
  the generator's own options give it.
\<close>

definition defaults :: "query_options \<Rightarrow> query_options \<Rightarrow> query_options" where
  "defaults opts dflt =
     \<lparr> limit = (if limit opts = Undefined then limit dflt else limit opts),
       bindParam = (if bindParam opts = Undefined then bindParam dflt else bindParam opts),
       omitNull = (if omitNull opts = Undefined then omitNull dflt else omitNull opts) \<rparr>"

text \<open>\<^verbatim>\<open>deleteQuery(tableName, where, options = {}, model)\<close>, lines 271 to 285.\<close>

definition deleteQuery ::
  "('w, 'b) generator \<Rightarrow> table_ref \<Rightarrow> 'w \<Rightarrow> query_options \<Rightarrow> string" where
  "deleteQuery this tableName whereArg options0 =
     (let opts = defaults options0 (options this);
          whereClause = getWhereConditions this whereArg;
          whereClause = (if whereClause \<noteq> [] then ''WHERE '' @ whereClause else whereClause);
          whereClause = (if truthy (limit opts)
            then ''WHERE rowid IN (SELECT rowid FROM '' @ quoteTable this tableName @ '' ''
                 @ whereClause @ '' LIMIT '' @ escape this (limit opts) @ '')''
            else whereClause)
      in trim (''DELETE FROM '' @ quoteTable this tableName @ '' '' @ whereClause))"

text \<open>
  \<^verbatim>\<open>updateQuery(tableName, attrValueHash, where, options, attributes)\<close>, lines 217 to 262.
  One round of the loop over the hash pushes \<^verbatim>\<open>key=value\<close>, the value escaped in place
  or bound through \<^verbatim>\<open>format\<close>; the sink of bound values is threaded through the loop and
  then through \<^verbatim>\<open>whereQuery\<close>, in the order in which the source evaluates them. The last
  argument of the source, \<^verbatim>\<open>attributes\<close>, only gives context to \<^verbatim>\<open>escape\<close> and
  \<^verbatim>\<open>format\<close>.
\<close>

definition updateValue ::
  "('w, 'b) generator \<Rightarrow> query_options \<Rightarrow> string \<times> js_value \<Rightarrow> string list \<times> 'b \<Rightarrow> string list \<times> 'b" where
  "updateValue this opts entry acc =
     (case (entry, acc) of ((k, v), (vals, sink)) \<Rightarrow>
        if isSequelizeMethod this v \<or> bindParam opts = Boolean False
        then (vals @ [quoteIdentifier k @ ''='' @ escape this v], sink)
        else (vals @ [quoteIdentifier k @ ''='' @ fst (format this v sink)], snd (format this v sink)))"

record 'b update_result =
  query :: string
  bind :: "'b option"

definition updateQuery ::
  "('w, 'b) generator \<Rightarrow> 'b \<Rightarrow> table_ref \<Rightarrow> (string \<times> js_value) list \<Rightarrow> 'w \<Rightarrow> query_options
     \<Rightarrow> 'b update_result" where
  "updateQuery this emptyBind tableName attrValueHash0 whereArg options0 =
     (let opts = defaults options0 (options this);
          attrValueHash = removeNullishValuesFromHash this attrValueHash0 (omitNull opts);
          loop = fold (updateValue this opts) attrValueHash ([], emptyBind);
          vals = fst loop;
          whereResult = whereQuery this whereArg (snd loop);
          q = (if truthy (limit opts)
            then trim (''UPDATE '' @ quoteTable this tableName @ '' SET '' @ join '','' vals
                 @ '' WHERE rowid IN (SELECT rowid FROM '' @ quoteTable this tableName @ '' ''
                 @ fst whereResult @ '' LIMIT '' @ escape this (limit opts) @ '')'')
            else trim (''UPDATE '' @ quoteTable this tableName @ '' SET '' @ join '','' vals
                 @ '' '' @ fst whereResult))
      in \<lparr> query = q,
           bind = (if bindParam opts \<noteq> Boolean False then Some (snd whereResult) else None) \<rparr>)"

section \<open>Isolation levels\<close>

text \<open>
  \<^verbatim>\<open>Transaction.ISOLATION_LEVELS\<close> is defined in the transaction module, which is not among
  the sources: the table of the four constants is a parameter, of any type \<open>'a\<close>.
  \<^verbatim>\<open>setIsolationLevelQuery(value)\<close>, lines 475 to 488, compares \<open>value\<close> with the
  constants in the order of the \<^verbatim>\<open>switch\<close>; the \<^verbatim>\<open>default\<close> case throws.
\<close>

record 'a isolation_levels =
  READ_UNCOMMITTED :: 'a
  READ_COMMITTED :: 'a
  REPEATABLE_READ :: 'a
  SERIALIZABLE :: 'a

datatype 'a isolation_error = UnknownIsolationLevel 'a

definition setIsolationLevelQuery :: "'a isolation_levels \<Rightarrow> 'a \<Rightarrow> 'a isolation_error + string" where
  "setIsolationLevelQuery levels v =
     (if v = REPEATABLE_READ levels
        then Inr ''-- SQLite is not able to choose the isolation level REPEATABLE READ.''
      else if v = READ_UNCOMMITTED levels then Inr ''PRAGMA read_uncommitted = ON;''
      else if v = READ_COMMITTED levels then Inr ''PRAGMA read_uncommitted = OFF;''
      else if v = SERIALIZABLE levels
        then Inr ''-- SQLite's default isolation level is SERIALIZABLE. Nothing to do.''
      else Inl (UnknownIsolationLevel v))"

text \<open>
  Modelled from the spec: the values of \<^verbatim>\<open>Transaction.ISOLATION_LEVELS\<close>, for evaluating
  the function; section 3 of the specification enumerates the four levels, here each one
  is its SQL name.
\<close>

definition ISOLATION_LEVELS :: "string isolation_levels" where
  "ISOLATION_LEVELS =
     \<lparr> READ_UNCOMMITTED = ''READ UNCOMMITTED'', READ_COMMITTED = ''READ COMMITTED'',
       REPEATABLE_READ = ''REPEATABLE READ'', SERIALIZABLE = ''SERIALIZABLE'' \<rparr>"

section \<open>The JSON statement scanner\<close>

text \<open>
  The character classes of the two regular expressions of \<^verbatim>\<open>_checkValidJsonStatement\<close>,
  among 8-bit code units: \<^verbatim>\<open>\w\<close>, \<^verbatim>\<open>[a-z]\<close> under the flag \<^verbatim>\<open>i\<close>, the line terminators
  that \<^verbatim>\<open>.\<close> does not match, and the folding of case that the flag \<^verbatim>\<open>i\<close> applies to the
  letters of \<^verbatim>\<open>json\<close>.
\<close>

definition isLetter :: "char \<Rightarrow> bool" where
  "isLetter c = (let n = (of_char c :: nat) in (65 \<le> n \<and> n \<le> 90) \<or> (97 \<le> n \<and> n \<le> 122))"

definition isWord :: "char \<Rightarrow> bool" where
  "isWord c = (let n = (of_char c :: nat) in isLetter c \<or> (48 \<le> n \<and> n \<le> 57) \<or> n = 95)"

definition isLineTerminator :: "char \<Rightarrow> bool" where
  "isLineTerminator c = (c = CHR 0x0A \<or> c = CHR 0x0D)"

definition toLower :: "char \<Rightarrow> char" where
  "toLower c = (let n = (of_char c :: nat) in if 65 \<le> n \<and> n \<le> 90 then char_of (n + 32) else c)"

text \<open>
  One group \<^verbatim>\<open>(?:_[a-z]+)\<close> at the start of a text: the group and the rest, or the empty
  group when there is none.
\<close>

definition underscoreGroup :: "string \<Rightarrow> string \<times> string" where
  "underscoreGroup s =
     (case s of
        [] \<Rightarrow> ([], s)
      | c # r \<Rightarrow>
          if c = CHR ''_'' \<and> takeWhile isLetter r \<noteq> []
          then (c # takeWhile isLetter r, dropWhile isLetter r) else ([], s))"

text \<open>
  \<^verbatim>\<open>jsonFunctionRegex.exec(string)\<close> for
  \<^verbatim>\<open>/^\s*(json(?:_[a-z]+){0,2})\([^)]*\)/i\<close>: the matched text (element 0 of the result),
  or \<open>None\<close> for \<^verbatim>\<open>null\<close>. Every quantifier is greedy, and giving characters back never
  yields a match that the greedy choice misses: the character after a maximal run is not
  of the class of the run.
\<close>

definition jsonFunctionMatch :: "string \<Rightarrow> string option" where
  "jsonFunctionMatch string =
     (let ws = takeWhile isSpace string;
          r0 = dropWhile isSpace string
      in if map toLower (take 4 r0) \<noteq> ''json'' then None
         else
           (let g1 = underscoreGroup (drop 4 r0);
                g2 = (if fst g1 = [] then ([], snd g1) else underscoreGroup (snd g1))
            in case snd g2 of
                 [] \<Rightarrow> None
               | c # r4 \<Rightarrow>
                   if c \<noteq> CHR ''('' then None
                   else (case dropWhile (\<lambda>x. x \<noteq> CHR '')'') r4 of
                           [] \<Rightarrow> None
                         | y # ys \<Rightarrow>
                             Some (ws @ take 4 r0 @ fst g1 @ fst g2 @ ''(''
                                   @ takeWhile (\<lambda>x. x \<noteq> CHR '')'') r4 @ '')''))))"

text \<open>
  The rest of a quoted string, \<^verbatim>\<open>(?:(?!\2).|\2{2})*\2\<close>, after the opening quote \<open>q\<close>: the
  number of characters up to and including the closing quote. At a quote followed by a
  quote the engine first takes both as a doubled quote and goes on; if that fails later,
  it closes the string at the first of the two.
\<close>

fun quotedRest :: "char \<Rightarrow> string \<Rightarrow> nat option" where
  "quotedRest q [] = None"
| "quotedRest q [c] = (if c = q then Some 1 else None)"
| "quotedRest q (c # d # r) =
     (if c = q then
        (if d = q then (case quotedRest q r of Some n \<Rightarrow> Some (n + 2) | None \<Rightarrow> Some 1)
         else Some 1)
      else if isLineTerminator c then None
      else map_option Suc (quotedRest q (d # r)))"

text \<open>
  \<^verbatim>\<open>tokenCaptureRegex.exec(string)\<close> for
  \<^verbatim>\<open>/^\s*((?:(["'`])(?:(?!\2).|\2{2})*\2)|[\s\w]+|[()+,.;-])/i\<close>: the captured token
  (group 1) and the length of the whole match, or \<open>None\<close>. When no alternative matches
  after the white space, the engine gives back the last white-space character, which the
  second alternative then matches alone.
\<close>

definition tokenCapture :: "string \<Rightarrow> (string \<times> nat) option" where
  "tokenCapture string =
     (let ws = takeWhile isSpace string;
          r = dropWhile isSpace string;
          tok = (case r of
              [] \<Rightarrow> None
            | c # t \<Rightarrow>
                if c \<in> set [CHR 0x22, CHR 0x27, CHR 0x60]
                  then map_option (\<lambda>n. take (Suc n) r) (quotedRest c t)
                else if isWord c then Some (takeWhile (\<lambda>x. isSpace x \<or> isWord x) r)
                else if c \<in> set ''()+,.;-'' then Some [c]
                else None)
      in case tok of
           Some capturedToken \<Rightarrow> Some (capturedToken, length ws + length capturedToken)
         | None \<Rightarrow> (if ws = [] then None else Some ([last ws], length ws)))"

lemma indexOf_nonneg: "c \<in> set s \<Longrightarrow> 0 \<le> indexOf s [c]"
  by (induction s) (auto simp: Let_def)

lemma indexOf_pos: "c \<in> set s \<Longrightarrow> hd s \<noteq> c \<Longrightarrow> 0 < indexOf s [c]"
proof (cases s)
  case Nil
  then show "c \<in> set s \<Longrightarrow> hd s \<noteq> c \<Longrightarrow> 0 < indexOf s [c]" by simp
next
  case (Cons a t)
  assume "c \<in> set s" "hd s \<noteq> c"
  with Cons have "c \<in> set t" "a \<noteq> c" by auto
  with indexOf_nonneg[of c t] Cons show "0 < indexOf s [c]" by (simp add: Let_def)
qed

lemma jsonFunctionMatch_advances:
  assumes "jsonFunctionMatch string = Some m"
  shows "0 < indexOf m ''(''"
proof -
  let ?ws = "takeWhile isSpace string" and ?r0 = "dropWhile isSpace string"
  from assms have j: "map toLower (take 4 ?r0) = ''json''"
    by (auto simp: jsonFunctionMatch_def Let_def split: if_splits)
  let ?g1 = "underscoreGroup (drop 4 ?r0)"
  let ?g2 = "if fst ?g1 = [] then ([], snd ?g1) else underscoreGroup (snd ?g1)"
  from assms have "\<exists>y. m = ?ws @ take 4 ?r0 @ (fst ?g1 @ fst ?g2) @ ''('' @ y"
    by (auto simp: jsonFunctionMatch_def Let_def split: if_splits list.splits)
  then obtain y where m: "m = ?ws @ take 4 ?r0 @ (fst ?g1 @ fst ?g2) @ ''('' @ y" ..
  from j obtain a t where t: "take 4 ?r0 = a # t" and a: "toLower a = CHR ''j''"
    by (cases "take 4 ?r0") auto
  have "a \<noteq> CHR ''(''" using a by (auto simp: toLower_def)
  moreover have "\<not> isSpace (CHR ''('')" by (simp add: isSpace_def)
  then have "?ws \<noteq> [] \<Longrightarrow> hd ?ws \<noteq> CHR ''(''"
    by (metis hd_in_set set_takeWhileD)
  ultimately have "hd m \<noteq> CHR ''(''"
    unfolding m t by (cases ?ws) auto
  moreover have "CHR ''('' \<in> set m" unfolding m by simp
  ultimately show ?thesis by (intro indexOf_pos)
qed

lemma tokenCapture_advances:
  assumes "tokenCapture string = Some (capturedToken, len)"
  shows "0 < len"
proof -
  let ?ws = "takeWhile isSpace string" and ?r = "dropWhile isSpace string"
  let ?tok = "case ?r of
              [] \<Rightarrow> None
            | c # t \<Rightarrow>
                if c \<in> set [CHR 0x22, CHR 0x27, CHR 0x60]
                  then map_option (\<lambda>n. take (Suc n) ?r) (quotedRest c t)
                else if isWord c then Some (takeWhile (\<lambda>x. isSpace x \<or> isWord x) ?r)
                else if c \<in> set ''()+,.;-'' then Some [c]
                else None"
  show ?thesis
  proof (cases ?tok)
    case None
    with assms have "?ws \<noteq> []" "len = length ?ws"
      by (simp_all add: tokenCapture_def Let_def split: if_splits)
    then show ?thesis by simp
  next
    case (Some tok)
    with assms have len: "len = length ?ws + length tok"
      by (auto simp: tokenCapture_def Let_def)
    from Some obtain c t where r: "?r = c # t" by (cases ?r) simp_all
    have "tok \<noteq> []"
    proof (cases "c \<in> set [CHR 0x22, CHR 0x27, CHR 0x60]")
      case True
      with Some r obtain n where "tok = take (Suc n) (c # t)" by auto
      then show ?thesis by simp
    next
      case False
      with Some r show ?thesis by (auto split: if_splits)
    qed
    with len show ?thesis by simp
  qed
qed

text \<open>
  The state of the loop of \<^verbatim>\<open>_checkValidJsonStatement\<close>, lines 133 to 165, and the loop.
  It ends: a match of the first expression moves \<^verbatim>\<open>currentIndex\<close> to its opening
  parenthesis, which is not its first character, and a token is never empty.
\<close>

record scan_state =
  currentIndex :: int
  openingBrackets :: nat
  closingBrackets :: nat
  hasJsonFunction :: bool
  hasInvalidToken :: bool

function scanLoop :: "string \<Rightarrow> scan_state \<Rightarrow> scan_state" where
  "scanLoop stmt st =
     (if currentIndex st < int (length stmt) then
        (case jsonFunctionMatch (slice stmt (currentIndex st)) of
           Some functionMatch \<Rightarrow>
             scanLoop stmt (st\<lparr> currentIndex := currentIndex st + indexOf functionMatch ''('',
                                hasJsonFunction := True \<rparr>)
         | None \<Rightarrow>
             (case tokenCapture (slice stmt (currentIndex st)) of
                Some (capturedToken, len) \<Rightarrow>
                  if capturedToken = ''('' then
                    scanLoop stmt (st\<lparr> openingBrackets := openingBrackets st + 1,
                                       currentIndex := currentIndex st + int len \<rparr>)
                  else if capturedToken = '')'' then
                    scanLoop stmt (st\<lparr> closingBrackets := closingBrackets st + 1,
                                       currentIndex := currentIndex st + int len \<rparr>)
                  else if capturedToken = '';'' then st\<lparr> hasInvalidToken := True \<rparr>
                  else scanLoop stmt (st\<lparr> currentIndex := currentIndex st + int len \<rparr>)
              | None \<Rightarrow> st))
      else st)"
  by pat_completeness auto
termination
  by (relation "measure (\<lambda>(stmt, st). nat (int (length stmt) - currentIndex st))")
    (auto dest: jsonFunctionMatch_advances tokenCapture_advances)

declare scanLoop.simps [simp del]

text \<open>
  \<^verbatim>\<open>_checkValidJsonStatement(stmt)\<close>, lines 124 to 175: \<open>Inr\<close> is the boolean returned,
  \<open>Inl\<close> the error thrown.
\<close>

datatype json_error = InvalidJsonStatement string

definition initialScan :: scan_state where
  "initialScan = \<lparr> currentIndex = 0, openingBrackets = 0, closingBrackets = 0,
                   hasJsonFunction = False, hasInvalidToken = False \<rparr>"

definition checkValidJsonStatement :: "js_value \<Rightarrow> json_error + bool" where
  "checkValidJsonStatement v =
     (case v of
        String stmt \<Rightarrow>
          (let final = scanLoop stmt initialScan;
               invalid = (hasInvalidToken final \<or> openingBrackets final \<noteq> closingBrackets final)
           in if hasJsonFunction final \<and> invalid then Inl (InvalidJsonStatement stmt)
              else Inr (hasJsonFunction final))
      | _ \<Rightarrow> Inr False)"

section \<open>An instance of the inherited generator\<close>

text \<open>Decimal digits of a natural number, as \<^verbatim>\<open>String(n)\<close> prints them.\<close>

fun showNat :: "nat \<Rightarrow> string" where
  "showNat n =
     (if n < 10 then [''0123456789'' ! n] else showNat (n div 10) @ [''0123456789'' ! (n mod 10)])"

declare showNat.simps [simp del]

text \<open>
  Modelled from the spec: the methods that \<^verbatim>\<open>SqliteQueryGenerator\<close> inherits are not among
  the sources. This instance serves to evaluate the functions on concrete inputs; the
  general theorems hold for every generator. Following sections 4.1 and 4.2 of the
  specification, a table name is quoted as an identifier (a schema is joined to the name
  with the delimiter first), a number is rendered in decimal and a string between single
  quotes, a bound value is appended to the sink and rendered as its position, and a
  where-clause is the keyword \<^verbatim>\<open>WHERE\<close> before the conditions, or nothing when there are
  none. Where-conditions are given as their text.
\<close>

definition exampleGenerator :: "(string, js_value list) generator" where
  "exampleGenerator =
     \<lparr> quoteTable = (\<lambda>t. case t of
          TableName n \<Rightarrow> quoteIdentifier n
        | TableObject n sch del \<Rightarrow>
            quoteIdentifier ((case sch of
                Some s \<Rightarrow> s @ (case del of Some d \<Rightarrow> d | None \<Rightarrow> ''.'')
              | None \<Rightarrow> []) @ n)),
       escape = (\<lambda>v. case v of
          Number n \<Rightarrow> (if n < 0 then ''-'' @ showNat (nat (- n)) else showNat (nat n))
        | String s \<Rightarrow> [CHR 0x27] @ s @ [CHR 0x27]
        | Boolean b \<Rightarrow> (if b then ''1'' else ''0'')
        | _ \<Rightarrow> ''NULL''),
       format = (\<lambda>v b. (''$'' @ showNat (Suc (length b)), b @ [v])),
       whereQuery = (\<lambda>w b. (if w = [] then [] else ''WHERE '' @ w, b)),
       getWhereConditions = (\<lambda>w. w),
       isSequelizeMethod = (\<lambda>v. case v of Object a \<Rightarrow> True | _ \<Rightarrow> False),
       removeNullishValuesFromHash = (\<lambda>h omit.
          if truthy omit then filter (\<lambda>kv. snd kv \<noteq> Null \<and> snd kv \<noteq> Undefined) h else h),
       defaultValueSchemable = (\<lambda>v. v \<noteq> Undefined),
       toUpperCase = map (\<lambda>c. if (97::nat) \<le> of_char c \<and> of_char c \<le> (122::nat)
          then char_of (of_char c - (32::nat)) else c),
       options = \<lparr> limit = Undefined, bindParam = Undefined, omitNull = Undefined \<rparr> \<rparr>"

section \<open>Properties of quoting\<close>

lemma removeTicks_free: "c \<notin> set (removeTicks s c)"
  by (simp add: removeTicks_def)

lemma removeTicks_idem: "removeTicks (removeTicks s c) c = removeTicks s c"
  by (simp add: removeTicks_def)

lemma quoteIdentifier_shape: "quoteIdentifier s = tick # removeTicks s tick @ [tick]"
  by (simp add: quoteIdentifier_def addTicks_def removeTicks_idem)

lemma collapseDoubled_free: "q \<notin> set s \<Longrightarrow> collapseDoubled q s = s"
  by (induction q s rule: collapseDoubled.induct) auto

text \<open>
  Claim C10. For every input string the output of \<^verbatim>\<open>quoteIdentifier\<close> begins and ends
  with a backtick, and what lies between the two is the input with its backticks removed,
  so it contains no backtick: the quoting cannot be closed early.
\<close>

theorem quoteIdentifier_wellformed:
  "2 \<le> length (quoteIdentifier s)
   \<and> hd (quoteIdentifier s) = tick
   \<and> last (quoteIdentifier s) = tick
   \<and> butlast (tl (quoteIdentifier s)) = filter (\<lambda>c. c \<noteq> tick) s
   \<and> tick \<notin> set (butlast (tl (quoteIdentifier s)))"
  by (simp add: quoteIdentifier_shape removeTicks_def)

text \<open>
  Claim C2, as stated, fails: the identifier \<^verbatim>\<open>a`b\<close> is quoted as \<^verbatim>\<open>`ab`\<close>, not with
  the backtick doubled, and reading the result back gives \<^verbatim>\<open>ab\<close>.
\<close>

theorem quoteIdentifier_roundtrip_counterexample:
  "quoteIdentifier [CHR ''a'', tick, CHR ''b''] = [tick, CHR ''a'', CHR ''b'', tick]
   \<and> quoteIdentifier [CHR ''a'', tick, CHR ''b''] \<noteq> spec_quoteByDoubling [CHR ''a'', tick, CHR ''b'']
   \<and> spec_unquoteIdentifier (quoteIdentifier [CHR ''a'', tick, CHR ''b'']) \<noteq> [CHR ''a'', tick, CHR ''b'']"
  by (simp add: quoteIdentifier_shape removeTicks_def spec_quoteByDoubling_def
      spec_unquoteIdentifier_def tick_def)

text \<open>
  Claim C2, amended. \<^verbatim>\<open>quoteIdentifier\<close> deletes every embedded backtick and wraps the
  rest in backticks. Stripping the outer quote characters and collapsing doubled
  occurrences gives back the identifier without its backticks; the round trip is exact
  precisely for the identifiers that contain no backtick.
\<close>

theorem quoteIdentifier_roundtrip:
  "quoteIdentifier s = tick # filter (\<lambda>c. c \<noteq> tick) s @ [tick]
   \<and> spec_unquoteIdentifier (quoteIdentifier s) = filter (\<lambda>c. c \<noteq> tick) s
   \<and> (spec_unquoteIdentifier (quoteIdentifier s) = s \<longleftrightarrow> tick \<notin> set s)"
proof -
  have shape: "quoteIdentifier s = tick # filter (\<lambda>c. c \<noteq> tick) s @ [tick]"
    by (simp add: quoteIdentifier_shape removeTicks_def)
  have readback: "spec_unquoteIdentifier (quoteIdentifier s) = filter (\<lambda>c. c \<noteq> tick) s"
    by (simp add: shape spec_unquoteIdentifier_def collapseDoubled_free)
  have "filter (\<lambda>c. c \<noteq> tick) s = s \<longleftrightarrow> tick \<notin> set s"
    by (auto simp: filter_id_conv)
  with shape readback show ?thesis by simp
qed

section \<open>Properties of the boolean-default rewriting\<close>

lemma optQuote_suffix: "suffix (optQuote s) s"
  by (auto simp: optQuote_def suffix_def split: list.splits)

lemma matchDefault_suffix: "matchDefault lit s = Some rest \<Longrightarrow> suffix rest s"
  unfolding matchDefault_def Let_def
  by (auto split: if_splits intro: suffix_order.trans [OF optQuote_suffix] suffix_order.trans [OF suffix_drop] suffix_order.trans)

lemma prefix_append_left:
  "prefix (xs @ ys) zs \<longleftrightarrow> prefix xs zs \<and> prefix ys (drop (length xs) zs)"
  by (auto simp: prefix_def)

lemma matchDefault_iff:
  "matchDefault lit s \<noteq> None \<longleftrightarrow>
     prefix (''DEFAULT '' @ lit) s \<or> prefix (''DEFAULT '' @ CHR 0x27 # lit) s"
proof (cases "prefix ''DEFAULT '' s")
  case False
  then have "\<not> prefix (''DEFAULT '' @ X) s" for X
    using append_prefixD by blast
  from this[of lit] this[of "CHR 0x27 # lit"] False show ?thesis
    by (simp add: matchDefault_def)
next
  case True
  then obtain r where s: "s = ''DEFAULT '' @ r" by (auto simp: prefix_def)
  show ?thesis
    by (cases r) (auto simp: s matchDefault_def optQuote_def Let_def)
qed

lemma noMatch_suffix: "noMatch lit t \<Longrightarrow> suffix u t \<Longrightarrow> noMatch lit u"
proof (induction t)
  case Nil
  then show ?case by simp
next
  case (Cons c t)
  then show ?case by (auto simp: suffix_Cons)
qed

lemma noMatch_replaceDefault_id: "noMatch lit t \<Longrightarrow> replaceDefault lit rep t = t"
  by (induction t) auto

lemma prefix_replaceDefault:
  "w \<noteq> [] \<Longrightarrow> last w \<notin> set rep \<Longrightarrow> rep \<noteq> [] \<Longrightarrow> last rep \<notin> set w \<Longrightarrow>
   prefix w (replaceDefault lit rep t) \<Longrightarrow> prefix w t"
proof (induction lit rep t arbitrary: w rule: replaceDefault.induct)
  case (1 lit rep)
  then show ?case by simp
next
  case (2 lit rep c s)
  show ?case
  proof (cases "matchDefault lit (c # s)")
    case (Some rest)
    with "2.prems" have "prefix w (rep @ replaceDefault lit rep rest)" by simp
    then consider "prefix w rep" | us where "w = rep @ us"
      by (auto simp: prefix_append)
    then show ?thesis
    proof cases
      case 1
      then obtain zs where "rep = w @ zs" by (auto simp: prefix_def)
      with "2.prems"(1,2) show ?thesis
        by (metis last_in_set Un_iff set_append)
    next
      case 2
      with "2.prems"(3,4) show ?thesis by (metis last_in_set Un_iff set_append)
    qed
  next
    case None
    with "2.prems" have p: "prefix w (c # replaceDefault lit rep s)" by simp
    with "2.prems"(1) obtain w' where w: "w = c # w'" and p': "prefix w' (replaceDefault lit rep s)"
      by (cases w) auto
    show ?thesis
    proof (cases "w' = []")
      case True
      with w show ?thesis by simp
    next
      case False
      with "2.prems" w have "last w' \<notin> set rep" "last rep \<notin> set w'" by auto
      with "2.IH"(1)[OF None False _ "2.prems"(3) _ p'] have "prefix w' s" by simp
      with w show ?thesis by simp
    qed
  qed
qed

lemma noMatch_rep:
  assumes "noMatch lit Y" "lit \<noteq> []" "d \<noteq> CHR 0x27" "d \<noteq> hd lit" "d \<noteq> CHR ''D''"
  shows "noMatch lit (''DEFAULT '' @ d # Y)"
  using assms by (cases lit) (auto simp: matchDefault_def optQuote_def)

lemma noMatch_after_replace:
  assumes lit: "lit \<noteq> []" "last lit \<notin> set (''DEFAULT '' @ [d])"
    and d: "d \<noteq> CHR 0x27" "d \<noteq> hd lit" "d \<notin> set (''DEFAULT '' @ lit)"
  shows "rep = ''DEFAULT '' @ [d] \<Longrightarrow>
     (\<And>u. suffix u t \<Longrightarrow> matchDefault lit u \<noteq> None \<Longrightarrow> matchDefault lit' u \<noteq> None)
     \<Longrightarrow> noMatch lit (replaceDefault lit' rep t)"
proof (induction lit' rep t rule: replaceDefault.induct)
  case (1 lit' rep)
  then show ?case by simp
next
  case (2 lit' rep c s)
  note rep = "2.prems"(1) and hyp = "2.prems"(2)
  have dD: "d \<noteq> CHR ''D''" using d(3) by simp
  have w1: "''EFAULT '' @ lit \<noteq> []" "last (''EFAULT '' @ lit) \<notin> set rep"
    "rep \<noteq> []" "last rep \<notin> set (''EFAULT '' @ lit)"
    using lit d(3) by (simp_all add: rep)
  have w2: "''EFAULT '' @ CHR 0x27 # lit \<noteq> []" "last (''EFAULT '' @ CHR 0x27 # lit) \<notin> set rep"
    "last rep \<notin> set (''EFAULT '' @ CHR 0x27 # lit)"
    using lit d(1,3) by (simp_all add: rep)
  show ?case
  proof (cases "matchDefault lit' (c # s)")
    case (Some rest)
    then have suf: "suffix rest (c # s)" by (rule matchDefault_suffix)
    have "noMatch lit (replaceDefault lit' rep rest)"
    proof (rule "2.IH"(2)[OF Some rep])
      fix u assume u: "suffix u rest" "matchDefault lit u \<noteq> None"
      from u(1) suf have "suffix u (c # s)" by (rule suffix_order.trans)
      then show "matchDefault lit' u \<noteq> None" using u(2) by (rule hyp)
    qed
    then have "noMatch lit (''DEFAULT '' @ d # replaceDefault lit' rep rest)"
      using lit(1) d(1,2) dD by (rule noMatch_rep)
    with Some rep show ?thesis by simp
  next
    case None
    let ?Y = "replaceDefault lit' rep s"
    have tail: "noMatch lit ?Y"
    proof (rule "2.IH"(1)[OF None rep])
      fix u assume u: "suffix u s" "matchDefault lit u \<noteq> None"
      from u(1) have "suffix u (c # s)" by (rule suffix_ConsI)
      then show "matchDefault lit' u \<noteq> None" using u(2) by (rule hyp)
    qed
    have head: "matchDefault lit (c # ?Y) = None"
    proof (rule ccontr)
      assume "matchDefault lit (c # ?Y) \<noteq> None"
      then consider "prefix (''DEFAULT '' @ lit) (c # ?Y)"
        | "prefix (''DEFAULT '' @ CHR 0x27 # lit) (c # ?Y)"
        unfolding matchDefault_iff by blast
      then have "matchDefault lit (c # s) \<noteq> None"
      proof cases
        case 1
        then have c: "c = CHR ''D''" and p: "prefix (''EFAULT '' @ lit) ?Y" by simp_all
        from w1 p have "prefix (''EFAULT '' @ lit) s" by (rule prefix_replaceDefault)
        with c show ?thesis unfolding matchDefault_iff by simp
      next
        case 2
        then have c: "c = CHR ''D''" and p: "prefix (''EFAULT '' @ CHR 0x27 # lit) ?Y" by simp_all
        from w2(1,2) w1(3) w2(3) p have "prefix (''EFAULT '' @ CHR 0x27 # lit) s"
          by (rule prefix_replaceDefault)
        with c show ?thesis unfolding matchDefault_iff by simp
      qed
      then have "matchDefault lit' (c # s) \<noteq> None" using hyp[of "c # s"] by simp
      with None show False by simp
    qed
    from head tail None show ?thesis by simp
  qed
qed

lemma noMatch_false_pass1: "noMatch ''false'' (replaceDefault ''false'' ''DEFAULT 0'' t)"
  by (rule noMatch_after_replace[where d = "CHR ''0''"]) auto

lemma noMatch_true_pass2: "noMatch ''true'' (replaceDefault ''true'' ''DEFAULT 1'' t)"
  by (rule noMatch_after_replace[where d = "CHR ''1''"]) auto

lemma noMatch_false_pass2:
  assumes "noMatch ''false'' t"
  shows "noMatch ''false'' (replaceDefault ''true'' ''DEFAULT 1'' t)"
proof (rule noMatch_after_replace[where d = "CHR ''1''"])
  fix u assume "suffix u t" "matchDefault ''false'' u \<noteq> None"
  with assms have "noMatch ''false'' u" "matchDefault ''false'' u \<noteq> None"
    by (auto intro: noMatch_suffix)
  then have False by (cases u) (simp_all add: matchDefault_def)
  then show "matchDefault ''true'' u \<noteq> None" ..
qed auto

text \<open>
  Claim C7. The rewriting of boolean defaults is idempotent: for every SQL text, applying
  \<^verbatim>\<open>replaceBooleanDefaults\<close> twice gives the same text as applying it once.
\<close>

theorem replaceBooleanDefaults_idempotent:
  "replaceBooleanDefaults (replaceBooleanDefaults sql) = replaceBooleanDefaults sql"
proof -
  let ?a = "replaceDefault ''false'' ''DEFAULT 0'' sql"
  let ?b = "replaceDefault ''true'' ''DEFAULT 1'' ?a"
  have "noMatch ''false'' ?b" by (intro noMatch_false_pass2 noMatch_false_pass1)
  then have "replaceDefault ''false'' ''DEFAULT 0'' ?b = ?b" by (rule noMatch_replaceDefault_id)
  moreover have "replaceDefault ''true'' ''DEFAULT 1'' ?b = ?b"
    by (intro noMatch_replaceDefault_id noMatch_true_pass2)
  ultimately show ?thesis by (simp add: replaceBooleanDefaults_def)
qed

section \<open>Properties of string replacement\<close>

lemma str_replace_absent: "\<not> sublist p s \<Longrightarrow> str_replace s p r = s"
proof (induction s)
  case Nil
  then show ?case by auto
next
  case (Cons c s)
  then show ?case by (auto simp: sublist_Cons_right)
qed

lemma str_replace_present:
  "sublist p s \<Longrightarrow> \<exists>a b. s = a @ p @ b \<and> str_replace s p r = a @ r @ b"
proof (induction s)
  case Nil
  then show ?case by simp
next
  case (Cons c s)
  show ?case
  proof (cases "prefix p (c # s)")
    case True
    then obtain b where b: "c # s = p @ b" by (auto simp: prefix_def)
    then have "drop (length p) (c # s) = b" by (metis append_eq_conv_conj)
    with True have "str_replace (c # s) p r = [] @ r @ b" by simp
    with b show ?thesis by (metis append_Nil)
  next
    case False
    with Cons.prems have "sublist p s" by (simp add: sublist_Cons_right)
    from Cons.IH[OF this] obtain a b where "s = a @ p @ b" "str_replace s p r = a @ r @ b" by blast
    with False have "c # s = (c # a) @ p @ b \<and> str_replace (c # s) p r = (c # a) @ r @ b" by simp
    then show ?thesis by blast
  qed
qed

lemma str_replace_skip:
  "(\<And>t. t \<noteq> [] \<Longrightarrow> suffix t pre \<Longrightarrow> \<not> prefix p (t @ rest)) \<Longrightarrow>
   str_replace (pre @ rest) p r = pre @ str_replace rest p r"
proof (induction pre)
  case Nil
  then show ?case by simp
next
  case (Cons c pre)
  have "\<not> prefix p ((c # pre) @ rest)" by (rule Cons.prems) simp_all
  moreover have "str_replace (pre @ rest) p r = pre @ str_replace rest p r"
    by (rule Cons.IH) (simp add: Cons.prems suffix_ConsI)
  ultimately show ?case by simp
qed

lemma sublist_PRIMARY_eval:
  "sublist ''PRIMARY'' ''PRIMARY KEY''" "sublist ''PRIMARY'' '' PRIMARY KEY''"
  by (simp_all add: sublist_Cons_right)

lemma no_marker_start_in_prefix:
  assumes pre: "\<not> sublist ''PRIMARY'' pre" and t: "t \<noteq> []" "suffix t pre"
  shows "\<not> prefix '' PRIMARY KEY'' (t @ '' PRIMARY KEY'' @ post)"
    and "\<not> prefix ''PRIMARY KEY'' (t @ '' PRIMARY KEY'' @ post)"
proof -
  have key: "\<not> sublist ''PRIMARY'' x" if "sublist x t" for x
    using that pre t(2) by (meson sublist_order.order.trans suffix_imp_sublist)
  have k1: "\<not> prefix '' PRIMARY KEY'' t" "\<not> prefix ''PRIMARY KEY'' t"
    using key sublist_PRIMARY_eval by (meson prefix_imp_sublist)+
  have self: "\<not> sublist ''PRIMARY'' t" using key by blast
  show "\<not> prefix '' PRIMARY KEY'' (t @ '' PRIMARY KEY'' @ post)"
    using k1(1) t(1) self
    by (auto simp: prefix_append append_eq_Cons_conv Cons_eq_append_conv sublist_Cons_right)
  show "\<not> prefix ''PRIMARY KEY'' (t @ '' PRIMARY KEY'' @ post)"
    using k1(2) t(1) self
    by (auto simp: prefix_append append_eq_Cons_conv Cons_eq_append_conv sublist_Cons_right)
qed

lemma replace_spaced_marker:
  assumes "\<not> sublist ''PRIMARY'' pre"
  shows "str_replace (pre @ '' PRIMARY KEY'' @ post) '' PRIMARY KEY'' r = pre @ r @ post"
proof -
  have "str_replace (pre @ '' PRIMARY KEY'' @ post) '' PRIMARY KEY'' r
      = pre @ str_replace ('' PRIMARY KEY'' @ post) '' PRIMARY KEY'' r"
    by (rule str_replace_skip) (rule no_marker_start_in_prefix(1)[OF assms])
  then show ?thesis by simp
qed

lemma replace_marker:
  assumes "\<not> sublist ''PRIMARY'' pre"
  shows "str_replace (pre @ '' PRIMARY KEY'' @ post) ''PRIMARY KEY'' r = pre @ '' '' @ r @ post"
proof -
  have "str_replace (pre @ '' PRIMARY KEY'' @ post) ''PRIMARY KEY'' r
      = pre @ str_replace ('' PRIMARY KEY'' @ post) ''PRIMARY KEY'' r"
    by (rule str_replace_skip) (rule no_marker_start_in_prefix(2)[OF assms])
  then show ?thesis by simp
qed

section \<open>Properties of CREATE TABLE\<close>

lemma fold_createTableStep:
  "fold (createTableStep m) attrs (pks, arr) =
     (pks @ (if m then map fst (filter (\<lambda>(attr, d). str_includes d ''PRIMARY KEY'') attrs) else []),
      arr @ map (\<lambda>(attr, d). quoteIdentifier attr @ '' '' @ dataTypeString m d) attrs)"
  by (induction attrs arbitrary: pks arr) (auto simp: createTableStep_def)
lemma join_nonempty: "xs \<noteq> [] \<Longrightarrow> hd xs \<noteq> [] \<Longrightarrow> join sep xs \<noteq> []"
  by (induction sep xs rule: join.induct) auto
lemma quoteIdentifier_nonempty: "quoteIdentifier s \<noteq> []"
  by (simp add: quoteIdentifier_shape)
lemma createTableQuery_composite:
  assumes "2 \<le> length (filter (\<lambda>(attr, d). str_includes d ''PRIMARY KEY'') attributes)"
  shows "createTableQuery this tableName attributes =
     replaceBooleanDefaults
       (''CREATE TABLE IF NOT EXISTS '' @ quoteTable this tableName @ '' (''
        @ join '', '' (map (\<lambda>(attr, d). quoteIdentifier attr @ '' '' @ dataTypeString True d) attributes)
        @ '', PRIMARY KEY (''
        @ join '', '' (map quoteIdentifier
            (map fst (filter (\<lambda>(attr, d). str_includes d ''PRIMARY KEY'') attributes)))
        @ ''));'')"
proof -
  let ?pk = "filter (\<lambda>(attr, d). str_includes d ''PRIMARY KEY'') attributes"
  have cnt: "length (filter (\<lambda>d. str_includes d ''PRIMARY KEY'') (map snd attributes)) = length ?pk"
    by (simp add: filter_map comp_def case_prod_unfold)
  with assms have multi: "1 < length (filter (\<lambda>d. str_includes d ''PRIMARY KEY'') (map snd attributes))"
    by simp
  from assms have ne: "?pk \<noteq> []" by auto
  then have "map quoteIdentifier (map fst ?pk) \<noteq> []" by simp
  moreover have "hd (map quoteIdentifier (map fst ?pk)) \<noteq> []"
    using ne by (simp add: hd_map quoteIdentifier_nonempty)
  ultimately have pk: "join '', '' (map quoteIdentifier (map fst ?pk)) \<noteq> []"
    by (rule join_nonempty)
  show ?thesis
    unfolding createTableQuery_def Let_def using multi pk
    by (simp add: fold_createTableStep)
qed
lemma dataTypeString_multi:
  "str_includes d ''PRIMARY KEY'' \<Longrightarrow>
   dataTypeString True d =
     (if str_includes d ''NOT NULL'' then str_replace d '' PRIMARY KEY'' []
      else str_replace d ''PRIMARY KEY'' ''NOT NULL'')"
  by (simp add: dataTypeString_def Let_def)

lemma marker_included: "str_includes (pre @ '' PRIMARY KEY'' @ post) ''PRIMARY KEY''"
proof -
  have "sublist ''PRIMARY KEY'' ((pre @ '' '') @ ''PRIMARY KEY'' @ post)"
    by (rule sublist_appendI)
  then show ?thesis by (simp add: str_includes_def)
qed

lemma dataTypeString_plain:
  assumes "\<not> str_includes pre ''PRIMARY''"
  shows "dataTypeString True (pre @ '' PRIMARY KEY'' @ post) =
     (if str_includes (pre @ '' PRIMARY KEY'' @ post) ''NOT NULL'' then pre @ post
      else pre @ '' NOT NULL'' @ post)"
proof -
  from assms have pre: "\<not> sublist ''PRIMARY'' pre" by (simp add: str_includes_def)
  have a: "str_replace (pre @ '' PRIMARY KEY'' @ post) '' PRIMARY KEY'' [] = pre @ post"
    using replace_spaced_marker[OF pre, of post "[]"] by simp
  have b: "str_replace (pre @ '' PRIMARY KEY'' @ post) ''PRIMARY KEY'' ''NOT NULL''
      = pre @ '' NOT NULL'' @ post"
    using replace_marker[OF pre, of post "''NOT NULL''"] by simp
  show ?thesis
    unfolding dataTypeString_multi[OF marker_included] a b ..
qed


lemma dataTypeString_plain_no_marker:
  assumes "\<not> str_includes pre ''PRIMARY''" "\<not> str_includes (pre @ post) ''PRIMARY KEY''"
  shows "\<not> str_includes (dataTypeString True (pre @ '' PRIMARY KEY'' @ post)) ''PRIMARY KEY''"
proof -
  from assms have pre: "\<not> sublist ''PRIMARY'' pre" and cut: "\<not> sublist ''PRIMARY KEY'' (pre @ post)"
    by (simp_all add: str_includes_def)
  have "\<not> sublist ''PRIMARY KEY'' (pre @ '' NOT NULL'' @ post)"
  proof
    assume "sublist ''PRIMARY KEY'' (pre @ '' NOT NULL'' @ post)"
    then consider "sublist ''PRIMARY KEY'' pre" | "sublist ''PRIMARY KEY'' ('' NOT NULL'' @ post)"
      | x1 x2 where "''PRIMARY KEY'' = x1 @ x2" "suffix x1 pre" "prefix x2 ('' NOT NULL'' @ post)"
      unfolding sublist_append[of _ pre] by blast
    then show False
    proof cases
      case 1
      with cut show False by (simp add: sublist_append)
    next
      case 2
      then consider "sublist ''PRIMARY KEY'' '' NOT NULL''" | "sublist ''PRIMARY KEY'' post"
        | y1 y2 where "''PRIMARY KEY'' = y1 @ y2" "suffix y1 '' NOT NULL''" "prefix y2 post"
        unfolding sublist_append[of _ "'' NOT NULL''"] by blast
      then show False
      proof cases
        case 1
        then show False by (simp add: sublist_Cons_right)
      next
        case 2
        with cut show False by (simp add: sublist_append)
      next
        case 3
        from 3(1,2) have "y1 = []"
          by (auto simp: append_eq_Cons_conv Cons_eq_append_conv suffix_Cons)
        with 3 have "prefix ''PRIMARY KEY'' post" by simp
        with cut show False by (simp add: sublist_append)
      qed
    next
      case 3
      have a: "\<not> sublist ''PRIMARY'' x1"
        using pre 3(2) by (meson sublist_order.order.trans suffix_imp_sublist)
      from 3(1,3) a show False
        by (auto simp: append_eq_Cons_conv Cons_eq_append_conv sublist_Cons_right)
    qed
  qed
  with cut show ?thesis
    unfolding dataTypeString_plain[OF assms(1)] str_includes_def by simp
qed

text \<open>
  Claim C6, as stated, fails: the claim has the two cases the wrong way round. A column
  that was not declared \<^verbatim>\<open>NOT NULL\<close> gets \<^verbatim>\<open>NOT NULL\<close> in place of the marker (the claim
  says the marker is removed outright and the column stays nullable), and a column that was
  declared \<^verbatim>\<open>NOT NULL\<close> has the marker removed outright (the claim says it is replaced by
  \<^verbatim>\<open>NOT NULL\<close>).
\<close>

theorem consolidation_strip_counterexample:
  "dataTypeString True ''INTEGER PRIMARY KEY'' = ''INTEGER NOT NULL''
   \<and> spec_stripMarker ''INTEGER PRIMARY KEY'' = ''INTEGER''
   \<and> dataTypeString True ''INTEGER NOT NULL PRIMARY KEY'' = ''INTEGER NOT NULL''
   \<and> spec_stripMarker ''INTEGER NOT NULL PRIMARY KEY'' = ''INTEGER NOT NULL NOT NULL''
   \<and> createTableQuery exampleGenerator (TableName ''t'')
         [(''a'', ''INTEGER PRIMARY KEY''), (''b'', ''INTEGER NOT NULL PRIMARY KEY'')]
       = ''CREATE TABLE IF NOT EXISTS `t` (`a` INTEGER NOT NULL, `b` INTEGER NOT NULL, PRIMARY KEY (`a`, `b`));''"
  by code_simp

text \<open>
  Claim C6, amended. When two or more attributes carry the primary-key marker, every
  column of the statement is the quoted name followed by the definition as
  \<open>dataTypeString True\<close> rewrites it. For the definition \<open>d\<close> of an attribute of the table
  in which the marker is written \<^verbatim>\<open> PRIMARY KEY\<close> after a text \<open>pre\<close> that does not
  contain \<^verbatim>\<open>PRIMARY\<close>, and is followed by \<open>post\<close>: if \<open>d\<close> already contains the text
  \<^verbatim>\<open>NOT NULL\<close>, the marker is removed outright and \<open>pre\<close> followed by \<open>post\<close> is left;
  otherwise the marker is replaced by \<^verbatim>\<open>NOT NULL\<close>.
\<close>

theorem consolidation_strips_marker:
  assumes "2 \<le> length (filter (\<lambda>(attr, d). str_includes d ''PRIMARY KEY'') attributes)"
    and "(attr, d) \<in> set attributes"
  shows "createTableQuery this tableName attributes =
       replaceBooleanDefaults
         (''CREATE TABLE IF NOT EXISTS '' @ quoteTable this tableName @ '' (''
          @ join '', '' (map (\<lambda>(attr, d). quoteIdentifier attr @ '' '' @ dataTypeString True d) attributes)
          @ '', PRIMARY KEY (''
          @ join '', '' (map quoteIdentifier
              (map fst (filter (\<lambda>(attr, d). str_includes d ''PRIMARY KEY'') attributes)))
          @ ''));'')
     \<and> (d = pre @ '' PRIMARY KEY'' @ post \<and> \<not> str_includes pre ''PRIMARY'' \<longrightarrow>
           dataTypeString True d =
             (if str_includes d ''NOT NULL'' then pre @ post else pre @ '' NOT NULL'' @ post))"
  using createTableQuery_composite[OF assms(1)] dataTypeString_plain[of pre post]
  by blast

theorem consolidation_strips_marker_witness:
  "2 \<le> length (filter (\<lambda>(attr, d). str_includes d ''PRIMARY KEY'')
          [(''a'', ''INTEGER PRIMARY KEY''), (''b'', ''INTEGER NOT NULL PRIMARY KEY'')])
   \<and> (''a'', ''INTEGER PRIMARY KEY'')
        \<in> set [(''a'', ''INTEGER PRIMARY KEY''), (''b'', ''INTEGER NOT NULL PRIMARY KEY'')]
   \<and> (''b'', ''INTEGER NOT NULL PRIMARY KEY'')
        \<in> set [(''a'', ''INTEGER PRIMARY KEY''), (''b'', ''INTEGER NOT NULL PRIMARY KEY'')]
   \<and> ''INTEGER PRIMARY KEY'' = ''INTEGER'' @ '' PRIMARY KEY'' @ []
   \<and> ''INTEGER NOT NULL PRIMARY KEY'' = ''INTEGER NOT NULL'' @ '' PRIMARY KEY'' @ []
   \<and> \<not> str_includes ''INTEGER'' ''PRIMARY''
   \<and> \<not> str_includes ''INTEGER NOT NULL'' ''PRIMARY''
   \<and> dataTypeString True ''INTEGER PRIMARY KEY'' = ''INTEGER NOT NULL''
   \<and> dataTypeString True ''INTEGER NOT NULL PRIMARY KEY'' = ''INTEGER NOT NULL''
   \<and> createTableQuery exampleGenerator (TableName ''t'')
         [(''a'', ''INTEGER PRIMARY KEY''), (''b'', ''INTEGER NOT NULL PRIMARY KEY'')]
       = replaceBooleanDefaults
         (''CREATE TABLE IF NOT EXISTS '' @ quoteTable exampleGenerator (TableName ''t'') @ '' (''
          @ join '', '' (map (\<lambda>(attr, d). quoteIdentifier attr @ '' '' @ dataTypeString True d)
              [(''a'', ''INTEGER PRIMARY KEY''), (''b'', ''INTEGER NOT NULL PRIMARY KEY'')])
          @ '', PRIMARY KEY (''
          @ join '', '' (map quoteIdentifier
              (map fst (filter (\<lambda>(attr, d). str_includes d ''PRIMARY KEY'')
                 [(''a'', ''INTEGER PRIMARY KEY''), (''b'', ''INTEGER NOT NULL PRIMARY KEY'')])))
          @ ''));'')"
proof -
  let ?attrs = "[(''a'', ''INTEGER PRIMARY KEY''), (''b'', ''INTEGER NOT NULL PRIMARY KEY'')]"
  have h: "2 \<le> length (filter (\<lambda>(attr, d). str_includes d ''PRIMARY KEY'') ?attrs)"
    by code_simp
  have ma: "(''a'', ''INTEGER PRIMARY KEY'') \<in> set ?attrs"
    and mb: "(''b'', ''INTEGER NOT NULL PRIMARY KEY'') \<in> set ?attrs"
    by simp_all
  have f1: "''INTEGER PRIMARY KEY'' = ''INTEGER'' @ '' PRIMARY KEY'' @ []" by simp
  have f2: "''INTEGER NOT NULL PRIMARY KEY'' = ''INTEGER NOT NULL'' @ '' PRIMARY KEY'' @ []" by simp
  have p1: "\<not> str_includes ''INTEGER'' ''PRIMARY''" by code_simp
  have p2: "\<not> str_includes ''INTEGER NOT NULL'' ''PRIMARY''" by code_simp
  have n1: "\<not> str_includes ''INTEGER PRIMARY KEY'' ''NOT NULL''" by code_simp
  have n2: "str_includes ''INTEGER NOT NULL PRIMARY KEY'' ''NOT NULL''" by code_simp
  note ia = consolidation_strips_marker[OF h ma, of exampleGenerator "TableName ''t''" "''INTEGER''" "[]"]
  note ib = consolidation_strips_marker[OF h mb, of exampleGenerator "TableName ''t''" "''INTEGER NOT NULL''" "[]"]
  have "dataTypeString True ''INTEGER PRIMARY KEY'' =
      (if str_includes ''INTEGER PRIMARY KEY'' ''NOT NULL'' then ''INTEGER'' @ []
       else ''INTEGER'' @ '' NOT NULL'' @ [])"
    by (rule ia[THEN conjunct2, THEN mp]) (simp add: p1)
  with n1 have a: "dataTypeString True ''INTEGER PRIMARY KEY'' = ''INTEGER NOT NULL''"
    by simp
  have "dataTypeString True ''INTEGER NOT NULL PRIMARY KEY'' =
      (if str_includes ''INTEGER NOT NULL PRIMARY KEY'' ''NOT NULL'' then ''INTEGER NOT NULL'' @ []
       else ''INTEGER NOT NULL'' @ '' NOT NULL'' @ [])"
    by (rule ib[THEN conjunct2, THEN mp]) (simp add: p2)
  with n2 have b: "dataTypeString True ''INTEGER NOT NULL PRIMARY KEY'' = ''INTEGER NOT NULL''"
    by simp
  note c = ia[THEN conjunct1]
  from h ma mb f1 f2 p1 p2 a b c show ?thesis by (intro conjI)
qed

text \<open>
  Claim C1. With two or more primary-key attributes the statement always ends with one
  \<^verbatim>\<open>PRIMARY KEY (...)\<close> constraint listing the quoted names in order
  (\<open>createTableQuery_composite\<close>), and a definition that carries the marker once has no
  inline marker left (\<open>dataTypeString_plain_no_marker\<close>). But the code replaces the first
  occurrence of the text \<^verbatim>\<open>PRIMARY KEY\<close>, which need not be the marker: for a column whose
  default value is the string \<^verbatim>\<open>PRIMARY KEY\<close>, the default is rewritten and the inline
  marker stays on the column.
\<close>

theorem createTableQuery_inline_marker_remains:
  "length (filter (\<lambda>(attr, d). str_includes d ''PRIMARY KEY'')
      [(''a'', ''TEXT DEFAULT 'PRIMARY KEY' PRIMARY KEY''), (''b'', ''INTEGER PRIMARY KEY'')]) = 2
   \<and> createTableQuery exampleGenerator (TableName ''t'')
         [(''a'', ''TEXT DEFAULT 'PRIMARY KEY' PRIMARY KEY''), (''b'', ''INTEGER PRIMARY KEY'')]
       = ''CREATE TABLE IF NOT EXISTS `t` (`a` TEXT DEFAULT 'NOT NULL' PRIMARY KEY, `b` INTEGER NOT NULL, PRIMARY KEY (`a`, `b`));''
   \<and> dataTypeString True ''TEXT DEFAULT 'PRIMARY KEY' PRIMARY KEY'' = ''TEXT DEFAULT 'NOT NULL' PRIMARY KEY''
   \<and> str_includes (dataTypeString True ''TEXT DEFAULT 'PRIMARY KEY' PRIMARY KEY'') ''PRIMARY KEY''"
  by code_simp

section \<open>Properties of the table recreation\<close>

lemma js_put_new:
  "ordinaryName k \<Longrightarrow> k \<notin> fst ` set obj \<Longrightarrow> js_put obj k v = obj @ [(k, v)]"
  by (simp add: js_put_def ordinaryName_def)

text \<open>
  With pairwise different field names, none of them an array index or \<^verbatim>\<open>__proto__\<close>,
  \<^verbatim>\<open>attributesToSQL\<close> has one property for each attribute, in the order of the attributes.
\<close>

lemma fold_attributesToSQLStep:
  "list_all (\<lambda>(name, a). ordinaryName (fieldName name a)) attrs \<Longrightarrow>
   distinct (map fst acc @ map (\<lambda>(name, a). fieldName name a) attrs) \<Longrightarrow>
   map fst (fold (attributesToSQLStep this) attrs acc)
     = map fst acc @ map (\<lambda>(name, a). fieldName name a) attrs"
proof (induction attrs arbitrary: acc)
  case Nil
  then show ?case by simp
next
  case (Cons e attrs)
  obtain name a where e: "e = (name, a)" by (cases e)
  let ?v = "case a of AttributeObject x \<Rightarrow> attributeSQL this x | SqlText s \<Rightarrow> s"
  from Cons.prems e have new: "fieldName name a \<notin> fst ` set acc" by auto
  from Cons.prems e have ord: "ordinaryName (fieldName name a)" by simp
  from Cons.prems have rest: "list_all (\<lambda>(name, a). ordinaryName (fieldName name a)) attrs"
    by simp
  from ord new have step: "attributesToSQLStep this e acc = acc @ [(fieldName name a, ?v)]"
    by (simp add: attributesToSQLStep_def e js_put_new)
  have "distinct (map fst (acc @ [(fieldName name a, ?v)]) @ map (\<lambda>(name, a). fieldName name a) attrs)"
    using Cons.prems e by auto
  from Cons.IH[OF rest this] step e show ?case by simp
qed

lemma attributesToSQL_keys:
  "list_all (\<lambda>(name, a). ordinaryName (fieldName name a)) attrs \<Longrightarrow>
   distinct (map (\<lambda>(name, a). fieldName name a) attrs) \<Longrightarrow>
   map fst (attributesToSQL this attrs) = map (\<lambda>(name, a). fieldName name a) attrs"
  using fold_attributesToSQLStep[of attrs "[]" this] by (simp add: attributesToSQL_def)

lemma replaceBooleanDefaults_create:
  "replaceBooleanDefaults (''CREATE TABLE IF NOT EXISTS '' @ s)
     = ''CREATE TABLE IF NOT EXISTS '' @ replaceBooleanDefaults s"
  by (simp add: replaceBooleanDefaults_def matchDefault_def)

lemma createTableQuery_starts:
  "\<exists>rest. createTableQuery this tableName attributes = ''CREATE TABLE IF NOT EXISTS '' @ rest"
  unfolding createTableQuery_def Let_def
  using replaceBooleanDefaults_create by blast

text \<open>
  Claim C5. A table has the three columns \<open>c1\<close>, \<open>c2\<close>, \<open>c3\<close>, listed in the order in
  which the object of its attributes enumerates them, with field names that differ and of
  which none is an array index or \<^verbatim>\<open>__proto__\<close> (for such a name the object built by
  \<^verbatim>\<open>attributesToSQL\<close> is not a plain dictionary: it moves the column or leaves it out).
  The column \<open>removed\<close> is taken out; \<^verbatim>\<open>removeColumnQuery\<close> receives the attributes that
  survive. It returns exactly four statements: create the backup table, insert into it a
  selection from the original, drop the original, rename the backup to the original. The
  columns of the selection are exactly the two surviving columns, in order, and the
  removed column is not among them.
\<close>

theorem removeColumnQuery_three_columns:
  assumes "distinct (map (\<lambda>(name, a). fieldName name a) [c1, c2, c3])"
    and "removed \<in> set [c1, c2, c3]"
    and "surviving = filter (\<lambda>c. c \<noteq> removed) [c1, c2, c3]"
    and "list_all (\<lambda>(name, a). ordinaryName (fieldName name a)) [c1, c2, c3]"
  shows "length surviving = 2
     \<and> map fst (attributesToSQL this surviving) = map (\<lambda>(name, a). fieldName name a) surviving
     \<and> (case removed of (name, a) \<Rightarrow> fieldName name a) \<notin> set (map fst (attributesToSQL this surviving))
     \<and> removeColumnStatements this tableName surviving =
         [createTableQuery this (backupTableName tableName) (attributesToSQL this surviving),
          ''INSERT INTO '' @ quoteTable this (backupTableName tableName) @ '' SELECT ''
            @ join '', '' (map (\<lambda>(name, a). quoteIdentifier (fieldName name a)) surviving)
            @ '' FROM '' @ quoteTable this tableName @ '';'',
          ''DROP TABLE '' @ quoteTable this tableName @ '';'',
          ''ALTER TABLE '' @ quoteTable this (backupTableName tableName) @ '' RENAME TO ''
            @ quoteTable this tableName @ '';'']
     \<and> length (removeColumnStatements this tableName surviving) = 4
     \<and> prefix ''CREATE TABLE IF NOT EXISTS '' (hd (removeColumnStatements this tableName surviving))
     \<and> removeColumnQuery this tableName surviving = concat (removeColumnStatements this tableName surviving)"
proof -
  let ?f = "\<lambda>(name, a). fieldName name a"
  from assms(1) have d3: "distinct [c1, c2, c3]"
    by (rule distinct_map[THEN iffD1, THEN conjunct1])
  have ds: "distinct (map ?f surviving)"
    unfolding assms(3) using assms(1) by (rule distinct_map_filter)
  have len: "length surviving = 2"
    using assms(2) d3 unfolding assms(3) by auto
  have os: "list_all (\<lambda>(name, a). ordinaryName (fieldName name a)) surviving"
    using assms(4) unfolding assms(3) list_all_iff by auto
  have keys: "map fst (attributesToSQL this surviving) = map ?f surviving"
    using os ds by (rule attributesToSQL_keys)
  have "?f removed \<notin> ?f ` set surviving"
  proof
    assume "?f removed \<in> ?f ` set surviving"
    then obtain c where c: "c \<in> set surviving" "?f c = ?f removed" by auto
    from c(1) have "c \<in> set [c1, c2, c3]" "c \<noteq> removed"
      unfolding assms(3) set_filter by blast+
    with c(2) assms(1,2) show False
      by (meson distinct_map inj_onD)
  qed
  then have gone: "?f removed \<notin> set (map fst (attributesToSQL this surviving))"
    by (simp add: keys)
  have names: "map quoteIdentifier (map fst (attributesToSQL this surviving))
      = map (\<lambda>(name, a). quoteIdentifier (fieldName name a)) surviving"
    by (simp add: keys case_prod_unfold)
  have stmts: "removeColumnStatements this tableName surviving =
         [createTableQuery this (backupTableName tableName) (attributesToSQL this surviving),
          ''INSERT INTO '' @ quoteTable this (backupTableName tableName) @ '' SELECT ''
            @ join '', '' (map (\<lambda>(name, a). quoteIdentifier (fieldName name a)) surviving)
            @ '' FROM '' @ quoteTable this tableName @ '';'',
          ''DROP TABLE '' @ quoteTable this tableName @ '';'',
          ''ALTER TABLE '' @ quoteTable this (backupTableName tableName) @ '' RENAME TO ''
            @ quoteTable this tableName @ '';'']"
    unfolding removeColumnStatements_def Let_def names ..
  have four: "length (removeColumnStatements this tableName surviving) = 4"
    by (simp add: removeColumnStatements_def Let_def)
  have whole: "removeColumnQuery this tableName surviving
      = concat (removeColumnStatements this tableName surviving)"
    by (simp add: removeColumnQuery_def)
  obtain rest where "createTableQuery this (backupTableName tableName) (attributesToSQL this surviving)
      = ''CREATE TABLE IF NOT EXISTS '' @ rest"
    using createTableQuery_starts by blast
  then have create: "prefix ''CREATE TABLE IF NOT EXISTS ''
      (hd (removeColumnStatements this tableName surviving))"
    unfolding stmts by (simp del: append.simps)
  from len keys gone stmts four create whole show ?thesis by (intro conjI)
qed

theorem removeColumnQuery_three_columns_witness:
  "distinct (map (\<lambda>(name, a). fieldName name a)
      [(''id'', SqlText ''INTEGER PRIMARY KEY''),
       (''name'', AttributeObject \<lparr> field = Some ''full_name'', type = ''VARCHAR(255)'',
          allowNull = Some False, defaultValue = Undefined, unique = False, primaryKey = False,
          autoIncrement = False, references = None, onDelete = None, onUpdate = None \<rparr>),
       (''age'', SqlText ''INTEGER'')])
   \<and> (''age'', SqlText ''INTEGER'') \<in> set
      [(''id'', SqlText ''INTEGER PRIMARY KEY''),
       (''name'', AttributeObject \<lparr> field = Some ''full_name'', type = ''VARCHAR(255)'',
          allowNull = Some False, defaultValue = Undefined, unique = False, primaryKey = False,
          autoIncrement = False, references = None, onDelete = None, onUpdate = None \<rparr>),
       (''age'', SqlText ''INTEGER'')]
   \<and> [(''id'', SqlText ''INTEGER PRIMARY KEY''),
       (''name'', AttributeObject \<lparr> field = Some ''full_name'', type = ''VARCHAR(255)'',
          allowNull = Some False, defaultValue = Undefined, unique = False, primaryKey = False,
          autoIncrement = False, references = None, onDelete = None, onUpdate = None \<rparr>)]
     = filter (\<lambda>c. c \<noteq> (''age'', SqlText ''INTEGER''))
      [(''id'', SqlText ''INTEGER PRIMARY KEY''),
       (''name'', AttributeObject \<lparr> field = Some ''full_name'', type = ''VARCHAR(255)'',
          allowNull = Some False, defaultValue = Undefined, unique = False, primaryKey = False,
          autoIncrement = False, references = None, onDelete = None, onUpdate = None \<rparr>),
       (''age'', SqlText ''INTEGER'')]
   \<and> list_all (\<lambda>(name, a). ordinaryName (fieldName name a))
      [(''id'', SqlText ''INTEGER PRIMARY KEY''),
       (''name'', AttributeObject \<lparr> field = Some ''full_name'', type = ''VARCHAR(255)'',
          allowNull = Some False, defaultValue = Undefined, unique = False, primaryKey = False,
          autoIncrement = False, references = None, onDelete = None, onUpdate = None \<rparr>),
       (''age'', SqlText ''INTEGER'')]
   \<and> length (removeColumnStatements exampleGenerator (TableName ''t'')
        [(''id'', SqlText ''INTEGER PRIMARY KEY''),
         (''name'', AttributeObject \<lparr> field = Some ''full_name'', type = ''VARCHAR(255)'',
          allowNull = Some False, defaultValue = Undefined, unique = False, primaryKey = False,
          autoIncrement = False, references = None, onDelete = None, onUpdate = None \<rparr>)]) = 4
   \<and> removeColumnQuery exampleGenerator (TableName ''t'')
        [(''id'', SqlText ''INTEGER PRIMARY KEY''),
         (''name'', AttributeObject \<lparr> field = Some ''full_name'', type = ''VARCHAR(255)'',
          allowNull = Some False, defaultValue = Undefined, unique = False, primaryKey = False,
          autoIncrement = False, references = None, onDelete = None, onUpdate = None \<rparr>)]
       = ''CREATE TABLE IF NOT EXISTS `t_backup` (`id` INTEGER PRIMARY KEY, `full_name` VARCHAR(255) NOT NULL);INSERT INTO `t_backup` SELECT `id`, `full_name` FROM `t`;DROP TABLE `t`;ALTER TABLE `t_backup` RENAME TO `t`;''"
proof -
  let ?c1 = "(''id'', SqlText ''INTEGER PRIMARY KEY'')"
  let ?c2 = "(''name'', AttributeObject \<lparr> field = Some ''full_name'', type = ''VARCHAR(255)'',
          allowNull = Some False, defaultValue = Undefined, unique = False, primaryKey = False,
          autoIncrement = False, references = None, onDelete = None, onUpdate = None \<rparr>)"
  let ?c3 = "(''age'', SqlText ''INTEGER'')"
  have h1: "distinct (map (\<lambda>(name, a). fieldName name a) [?c1, ?c2, ?c3])" by simp
  have h2: "?c3 \<in> set [?c1, ?c2, ?c3]" by simp
  have h3: "[?c1, ?c2] = filter (\<lambda>c. c \<noteq> ?c3) [?c1, ?c2, ?c3]" by simp
  have h4: "list_all (\<lambda>(name, a). ordinaryName (fieldName name a)) [?c1, ?c2, ?c3]"
    by (simp add: ordinaryName_def isArrayIndex_def isDigit_def)
  note inst = removeColumnQuery_three_columns[OF h1 h2 h3 h4, of exampleGenerator "TableName ''t''"]
  from inst have four: "length (removeColumnStatements exampleGenerator (TableName ''t'') [?c1, ?c2]) = 4"
    by blast
  have whole: "removeColumnQuery exampleGenerator (TableName ''t'') [?c1, ?c2]
       = ''CREATE TABLE IF NOT EXISTS `t_backup` (`id` INTEGER PRIMARY KEY, `full_name` VARCHAR(255) NOT NULL);INSERT INTO `t_backup` SELECT `id`, `full_name` FROM `t`;DROP TABLE `t`;ALTER TABLE `t_backup` RENAME TO `t`;''"
    by code_simp
  from h1 h2 h3 h4 four whole show ?thesis by (intro conjI)
qed

text \<open>
  Claim C4, as stated, fails: \<^verbatim>\<open>renameColumnQuery\<close> emits no
  \<^verbatim>\<open>ALTER TABLE ... RENAME TO\<close> statement. Renaming column \<^verbatim>\<open>a\<close> of table \<^verbatim>\<open>t\<close> to \<^verbatim>\<open>b\<close>
  gives six statements, the last of which drops the backup table.
\<close>

theorem renameColumnQuery_counterexample:
  "renameColumnQuery exampleGenerator (TableName ''t'') ''a'' ''b'' [(''b'', SqlText ''INTEGER'')]
     = ''CREATE TABLE IF NOT EXISTS `t_backup` (`b` INTEGER);INSERT INTO `t_backup` SELECT `a` AS `b` FROM `t`;DROP TABLE `t`;CREATE TABLE IF NOT EXISTS `t` (`b` INTEGER);INSERT INTO `t` SELECT `b` FROM `t_backup`;DROP TABLE `t_backup`;''
   \<and> last (renameColumnStatements exampleGenerator (TableName ''t'') ''a'' ''b'' [(''b'', SqlText ''INTEGER'')])
     = ''DROP TABLE `t_backup`;''
   \<and> spec_renameStatement exampleGenerator (TableName ''t'') = ''ALTER TABLE `t_backup` RENAME TO `t`;''
   \<and> last (renameColumnStatements exampleGenerator (TableName ''t'') ''a'' ''b'' [(''b'', SqlText ''INTEGER'')])
     \<noteq> spec_renameStatement exampleGenerator (TableName ''t'')
   \<and> \<not> str_includes
        (renameColumnQuery exampleGenerator (TableName ''t'') ''a'' ''b'' [(''b'', SqlText ''INTEGER'')])
        ''ALTER TABLE''"
  by code_simp

text \<open>
  Claim C4, amended. For every rename-column operation, \<^verbatim>\<open>renameColumnQuery\<close> emits six
  statements: create the backup table from the post-change attribute set; insert into the
  backup table a selection from the original whose column list gives the old column name
  as the new one (\<^verbatim>\<open>old AS new\<close>); drop the original table; create the original table
  again from the post-change attribute set; insert into it a selection of the columns from
  the backup table; and, as the last step, drop the backup table. None of the statements
  is \<^verbatim>\<open>ALTER TABLE <backup> RENAME TO <original>\<close>.
\<close>

theorem renameColumnQuery_sequence:
  "renameColumnStatements this tableName attrNameBefore attrNameAfter attributes =
     [createTableQuery this (backupTableName tableName) (attributesToSQL this attributes),
      ''INSERT INTO '' @ quoteTable this (backupTableName tableName) @ '' SELECT ''
        @ join '', '' (map (\<lambda>attr.
            if attrNameAfter = attr
            then quoteIdentifier attrNameBefore @ '' AS '' @ quoteIdentifier attr
            else quoteIdentifier attr) (map fst (attributesToSQL this attributes)))
        @ '' FROM '' @ quoteTable this tableName @ '';'',
      ''DROP TABLE '' @ quoteTable this tableName @ '';'',
      createTableQuery this tableName (attributesToSQL this attributes),
      ''INSERT INTO '' @ quoteTable this tableName @ '' SELECT ''
        @ join '', '' (map quoteIdentifier (map fst (attributesToSQL this attributes)))
        @ '' FROM '' @ quoteTable this (backupTableName tableName) @ '';'',
      ''DROP TABLE '' @ quoteTable this (backupTableName tableName) @ '';'']
   \<and> length (renameColumnStatements this tableName attrNameBefore attrNameAfter attributes) = 6
   \<and> last (renameColumnStatements this tableName attrNameBefore attrNameAfter attributes)
       = ''DROP TABLE '' @ quoteTable this (backupTableName tableName) @ '';''
   \<and> spec_renameStatement this tableName
       \<notin> set (renameColumnStatements this tableName attrNameBefore attrNameAfter attributes)
   \<and> renameColumnQuery this tableName attrNameBefore attrNameAfter attributes
       = concat (renameColumnStatements this tableName attrNameBefore attrNameAfter attributes)"
proof -
  let ?s = "renameColumnStatements this tableName attrNameBefore attrNameAfter attributes"
  have stmts: "?s =
     [createTableQuery this (backupTableName tableName) (attributesToSQL this attributes),
      ''INSERT INTO '' @ quoteTable this (backupTableName tableName) @ '' SELECT ''
        @ join '', '' (map (\<lambda>attr.
            if attrNameAfter = attr
            then quoteIdentifier attrNameBefore @ '' AS '' @ quoteIdentifier attr
            else quoteIdentifier attr) (map fst (attributesToSQL this attributes)))
        @ '' FROM '' @ quoteTable this tableName @ '';'',
      ''DROP TABLE '' @ quoteTable this tableName @ '';'',
      createTableQuery this tableName (attributesToSQL this attributes),
      ''INSERT INTO '' @ quoteTable this tableName @ '' SELECT ''
        @ join '', '' (map quoteIdentifier (map fst (attributesToSQL this attributes)))
        @ '' FROM '' @ quoteTable this (backupTableName tableName) @ '';'',
      ''DROP TABLE '' @ quoteTable this (backupTableName tableName) @ '';'']"
    unfolding renameColumnStatements_def Let_def ..
  have six: "length ?s = 6" unfolding stmts by simp
  have final: "last ?s = ''DROP TABLE '' @ quoteTable this (backupTableName tableName) @ '';''"
    unfolding stmts by simp
  have "hd x \<noteq> CHR ''A''" if "x \<in> set ?s" for x
  proof -
    obtain r1 where r1: "createTableQuery this (backupTableName tableName) (attributesToSQL this attributes)
        = ''CREATE TABLE IF NOT EXISTS '' @ r1"
      using createTableQuery_starts by blast
    obtain r2 where r2: "createTableQuery this tableName (attributesToSQL this attributes)
        = ''CREATE TABLE IF NOT EXISTS '' @ r2"
      using createTableQuery_starts by blast
    from that show ?thesis unfolding stmts r1 r2 by auto
  qed
  moreover have "hd (spec_renameStatement this tableName) = CHR ''A''"
    by (simp add: spec_renameStatement_def)
  ultimately have absent: "spec_renameStatement this tableName \<notin> set ?s" by blast
  have whole: "renameColumnQuery this tableName attrNameBefore attrNameAfter attributes = concat ?s"
    by (simp add: renameColumnQuery_def)
  from stmts six final absent whole show ?thesis by (intro conjI)
qed

section \<open>Properties of UPDATE and DELETE with a limit\<close>

lemma trim_id: "s \<noteq> [] \<Longrightarrow> \<not> isSpace (hd s) \<Longrightarrow> \<not> isSpace (last s) \<Longrightarrow> trim s = s"
proof -
  assume s: "s \<noteq> []" and h: "\<not> isSpace (hd s)" and l: "\<not> isSpace (last s)"
  from s h have "dropWhile isSpace s = s" by (cases s) simp_all
  moreover from s l have "dropWhile isSpace (rev s) = rev s"
    by (cases "rev s") (simp_all add: last_rev[symmetric] hd_rev)
  ultimately show ?thesis by (simp add: trim_def)
qed

lemma limit_defaults: "limit opts = Number n \<Longrightarrow> limit (defaults opts dflt) = Number n"
  by (simp add: defaults_def)

text \<open>
  Claim C8. For a DELETE and for an UPDATE generated with a positive limit \<open>n\<close>, the
  statement restricts the rows with \<^verbatim>\<open>WHERE rowid IN (SELECT rowid FROM <table> ... LIMIT n)\<close>,
  the where-clause of the caller being inside the subquery; the statement ends with the
  closing parenthesis of the subquery, not with a \<^verbatim>\<open>LIMIT\<close> of its own.
\<close>

theorem limit_is_rowid_subquery:
  assumes "limit opts = Number n" and "0 < n"
  shows "deleteQuery this tableName whereArg opts =
       ''DELETE FROM '' @ quoteTable this tableName
       @ '' WHERE rowid IN (SELECT rowid FROM '' @ quoteTable this tableName @ '' ''
       @ (if getWhereConditions this whereArg \<noteq> [] then ''WHERE '' @ getWhereConditions this whereArg
          else [])
       @ '' LIMIT '' @ escape this (Number n) @ '')''
     \<and> last (deleteQuery this tableName whereArg opts) = CHR '')''
     \<and> query (updateQuery this emptyBind tableName attrValueHash whereArg opts) =
       (let loop = fold (updateValue this (defaults opts (options this)))
              (removeNullishValuesFromHash this attrValueHash (omitNull (defaults opts (options this))))
              ([], emptyBind)
        in ''UPDATE '' @ quoteTable this tableName @ '' SET '' @ join '','' (fst loop)
           @ '' WHERE rowid IN (SELECT rowid FROM '' @ quoteTable this tableName @ '' ''
           @ fst (whereQuery this whereArg (snd loop))
           @ '' LIMIT '' @ escape this (Number n) @ '')'')
     \<and> last (query (updateQuery this emptyBind tableName attrValueHash whereArg opts)) = CHR '')''"
proof -
  from assms have lim: "limit (defaults opts (options this)) = Number n"
    and tr: "truthy (limit (defaults opts (options this)))"
    by (simp_all add: limit_defaults)
  have noSpace: "\<not> isSpace (CHR ''D'')" "\<not> isSpace (CHR ''U'')" "\<not> isSpace (CHR '')'')"
    by (simp_all add: isSpace_def)
  have tD: "trim (''DELETE FROM '' @ x @ '')'') = ''DELETE FROM '' @ x @ '')''" for x
    by (rule trim_id) (simp_all add: noSpace)
  have tU: "trim (''UPDATE '' @ x @ '')'') = ''UPDATE '' @ x @ '')''" for x
    by (rule trim_id) (simp_all add: noSpace)
  let ?w = "if getWhereConditions this whereArg \<noteq> [] then ''WHERE '' @ getWhereConditions this whereArg
          else []"
  let ?dx = "quoteTable this tableName
       @ '' WHERE rowid IN (SELECT rowid FROM '' @ quoteTable this tableName @ '' '' @ ?w
       @ '' LIMIT '' @ escape this (Number n)"
  have "deleteQuery this tableName whereArg opts = trim (''DELETE FROM '' @ ?dx @ '')'')"
    using assms(2) by (simp add: deleteQuery_def Let_def lim)
  also have "\<dots> = ''DELETE FROM '' @ ?dx @ '')''" by (rule tD)
  finally have d: "deleteQuery this tableName whereArg opts = ''DELETE FROM '' @ ?dx @ '')''" .
  let ?loop = "fold (updateValue this (defaults opts (options this)))
              (removeNullishValuesFromHash this attrValueHash (omitNull (defaults opts (options this))))
              ([], emptyBind)"
  let ?ux = "quoteTable this tableName @ '' SET '' @ join '','' (fst ?loop)
           @ '' WHERE rowid IN (SELECT rowid FROM '' @ quoteTable this tableName @ '' ''
           @ fst (whereQuery this whereArg (snd ?loop))
           @ '' LIMIT '' @ escape this (Number n)"
  have "query (updateQuery this emptyBind tableName attrValueHash whereArg opts)
      = trim (''UPDATE '' @ ?ux @ '')'')"
    using assms(2) by (simp add: updateQuery_def Let_def lim)
  also have "\<dots> = ''UPDATE '' @ ?ux @ '')''" by (rule tU)
  finally have u: "query (updateQuery this emptyBind tableName attrValueHash whereArg opts)
      = ''UPDATE '' @ ?ux @ '')''" .
  have ld: "last (deleteQuery this tableName whereArg opts) = CHR '')''"
    unfolding d by simp
  have lu: "last (query (updateQuery this emptyBind tableName attrValueHash whereArg opts)) = CHR '')''"
    unfolding u by simp
  from d u ld lu show ?thesis by (simp add: Let_def)
qed

theorem limit_is_rowid_subquery_witness:
  "limit \<lparr> limit = Number 1, bindParam = Undefined, omitNull = Undefined \<rparr> = Number 1
   \<and> (0::int) < 1
   \<and> last (deleteQuery exampleGenerator (TableName ''t'') ''`age` > 30''
        \<lparr> limit = Number 1, bindParam = Undefined, omitNull = Undefined \<rparr>) = CHR '')''
   \<and> deleteQuery exampleGenerator (TableName ''t'') ''`age` > 30''
        \<lparr> limit = Number 1, bindParam = Undefined, omitNull = Undefined \<rparr>
      = ''DELETE FROM `t` WHERE rowid IN (SELECT rowid FROM `t` WHERE `age` > 30 LIMIT 1)''
   \<and> query (updateQuery exampleGenerator [] (TableName ''t'') [(''name'', String ''x'')] ''`id` = 2''
        \<lparr> limit = Number 1, bindParam = Undefined, omitNull = Undefined \<rparr>)
      = ''UPDATE `t` SET `name`=$1 WHERE rowid IN (SELECT rowid FROM `t` WHERE `id` = 2 LIMIT 1)''"
proof -
  let ?o = "\<lparr> limit = Number 1, bindParam = Undefined, omitNull = Undefined \<rparr>"
  have h1: "limit ?o = Number 1" by simp
  have h2: "(0::int) < 1" by simp
  note inst = limit_is_rowid_subquery[OF h1 h2, of exampleGenerator "TableName ''t''" "''`age` > 30''"]
  from inst have l: "last (deleteQuery exampleGenerator (TableName ''t'') ''`age` > 30'' ?o) = CHR '')''"
    by blast
  have d: "deleteQuery exampleGenerator (TableName ''t'') ''`age` > 30'' ?o
      = ''DELETE FROM `t` WHERE rowid IN (SELECT rowid FROM `t` WHERE `age` > 30 LIMIT 1)''"
    by code_simp
  have u: "query (updateQuery exampleGenerator [] (TableName ''t'') [(''name'', String ''x'')] ''`id` = 2'' ?o)
      = ''UPDATE `t` SET `name`=$1 WHERE rowid IN (SELECT rowid FROM `t` WHERE `id` = 2 LIMIT 1)''"
    by code_simp
  from h1 h2 l d u show ?thesis by (intro conjI)
qed

section \<open>Properties of the isolation levels\<close>

text \<open>
  Claim C9. The four levels being four different values, \<^verbatim>\<open>setIsolationLevelQuery\<close> maps
  \<^verbatim>\<open>READ_UNCOMMITTED\<close> and \<^verbatim>\<open>READ_COMMITTED\<close> to the statements
  \<^verbatim>\<open>PRAGMA read_uncommitted = ON;\<close> and \<^verbatim>\<open>PRAGMA read_uncommitted = OFF;\<close>,
  \<^verbatim>\<open>REPEATABLE_READ\<close> and \<^verbatim>\<open>SERIALIZABLE\<close> to SQL comments, and throws the
  unknown-isolation-level error for every other value \<open>v\<close>.
\<close>

theorem setIsolationLevelQuery_cases:
  assumes "distinct [REPEATABLE_READ levels, READ_UNCOMMITTED levels, READ_COMMITTED levels,
      SERIALIZABLE levels]"
  shows "setIsolationLevelQuery levels (READ_UNCOMMITTED levels) = Inr ''PRAGMA read_uncommitted = ON;''
     \<and> setIsolationLevelQuery levels (READ_COMMITTED levels) = Inr ''PRAGMA read_uncommitted = OFF;''
     \<and> setIsolationLevelQuery levels (REPEATABLE_READ levels)
         = Inr (''--'' @ '' SQLite is not able to choose the isolation level REPEATABLE READ.'')
     \<and> setIsolationLevelQuery levels (SERIALIZABLE levels)
         = Inr (''--'' @ '' SQLite's default isolation level is SERIALIZABLE. Nothing to do.'')
     \<and> (v \<notin> {READ_UNCOMMITTED levels, READ_COMMITTED levels, REPEATABLE_READ levels,
              SERIALIZABLE levels}
          \<longrightarrow> setIsolationLevelQuery levels v = Inl (UnknownIsolationLevel v))"
  using assms by (auto simp: setIsolationLevelQuery_def)

theorem setIsolationLevelQuery_cases_witness:
  "distinct [REPEATABLE_READ ISOLATION_LEVELS, READ_UNCOMMITTED ISOLATION_LEVELS,
      READ_COMMITTED ISOLATION_LEVELS, SERIALIZABLE ISOLATION_LEVELS]
   \<and> ''SNAPSHOT'' \<notin> {READ_UNCOMMITTED ISOLATION_LEVELS, READ_COMMITTED ISOLATION_LEVELS,
        REPEATABLE_READ ISOLATION_LEVELS, SERIALIZABLE ISOLATION_LEVELS}
   \<and> setIsolationLevelQuery ISOLATION_LEVELS ''READ UNCOMMITTED'' = Inr ''PRAGMA read_uncommitted = ON;''
   \<and> setIsolationLevelQuery ISOLATION_LEVELS ''READ COMMITTED'' = Inr ''PRAGMA read_uncommitted = OFF;''
   \<and> setIsolationLevelQuery ISOLATION_LEVELS ''SNAPSHOT'' = Inl (UnknownIsolationLevel ''SNAPSHOT'')"
proof -
  have h: "distinct [REPEATABLE_READ ISOLATION_LEVELS, READ_UNCOMMITTED ISOLATION_LEVELS,
      READ_COMMITTED ISOLATION_LEVELS, SERIALIZABLE ISOLATION_LEVELS]"
    by (simp add: ISOLATION_LEVELS_def)
  have out: "''SNAPSHOT'' \<notin> {READ_UNCOMMITTED ISOLATION_LEVELS, READ_COMMITTED ISOLATION_LEVELS,
        REPEATABLE_READ ISOLATION_LEVELS, SERIALIZABLE ISOLATION_LEVELS}"
    by (simp add: ISOLATION_LEVELS_def)
  note inst = setIsolationLevelQuery_cases[OF h, of "''SNAPSHOT''"]
  from inst out have e: "setIsolationLevelQuery ISOLATION_LEVELS ''SNAPSHOT'' = Inl (UnknownIsolationLevel ''SNAPSHOT'')"
    by blast
  from inst have a: "setIsolationLevelQuery ISOLATION_LEVELS ''READ UNCOMMITTED'' = Inr ''PRAGMA read_uncommitted = ON;''"
    by (simp add: ISOLATION_LEVELS_def)
  from inst have b: "setIsolationLevelQuery ISOLATION_LEVELS ''READ COMMITTED'' = Inr ''PRAGMA read_uncommitted = OFF;''"
    by (simp add: ISOLATION_LEVELS_def)
  from h out a b e show ?thesis by (intro conjI)
qed

section \<open>Properties of the JSON statement scanner\<close>

lemma slice_nonneg: "0 \<le> i \<Longrightarrow> slice s i = drop (nat i) s"
  by (simp add: slice_def)

text \<open>
  Whatever follows the semicolon, a statement that begins with
  \<^verbatim>\<open>json_extract(col,'$.a');\<close> is rejected: the scanner finds the function, counts one
  opening and one closing parenthesis, and stops at the semicolon.
\<close>

lemma json_extract_then_semicolon:
  "checkValidJsonStatement (String (''json_extract(col,'$.a');'' @ rest))
     = Inl (InvalidJsonStatement (''json_extract(col,'$.a');'' @ rest))"
  by (simp add: checkValidJsonStatement_def initialScan_def scanLoop.simps slice_nonneg
      jsonFunctionMatch_def tokenCapture_def underscoreGroup_def isSpace_def isLetter_def
      isWord_def toLower_def isLineTerminator_def Let_def)

text \<open>
  The scan ends without complaint at the first character that begins no token. Whatever
  follows an equals sign, a statement that begins with \<^verbatim>\<open>json_extract(col,'$.a') =\<close> is
  accepted: the parentheses counted so far are balanced, and nothing behind the equals
  sign is read.
\<close>

lemma json_extract_then_equals:
  "checkValidJsonStatement (String (''json_extract(col,'$.a') ='' @ rest)) = Inr True"
  by (simp add: checkValidJsonStatement_def initialScan_def scanLoop.simps slice_nonneg
      jsonFunctionMatch_def tokenCapture_def underscoreGroup_def isSpace_def isLetter_def
      isWord_def toLower_def isLineTerminator_def Let_def)

text \<open>
  Claim C3. A string with a JSON function call and a bare semicolon, or with unbalanced
  parentheses, is to be rejected with an error, and the documentation of
  \<^verbatim>\<open>_checkValidJsonStatement\<close> says that it throws when the statement looks like a JSON
  function but has an invalid token. The code does not: the loop leaves silently when no
  token matches (the last \<^verbatim>\<open>break\<close>), without setting \<^verbatim>\<open>hasInvalidToken\<close>, so that a
  semicolon, or a parenthesis that is never closed, behind a character such as \<^verbatim>\<open>=\<close> is
  never seen. The text \<^verbatim>\<open>json_extract(col,'$.a') = 1; DROP TABLE users;\<close> is classified as
  a valid JSON function call, and so is \<^verbatim>\<open>json_extract(col,'$.a') = ((1\<close>; without the
  equals sign both are rejected.
\<close>

theorem checkValidJsonStatement_accepts_semicolon:
  "checkValidJsonStatement (String ''json_extract(col,'$.a') = 1; DROP TABLE users;'') = Inr True
   \<and> checkValidJsonStatement (String ''json_extract(col,'$.a') = ((1'') = Inr True
   \<and> checkValidJsonStatement (String ''json_extract(col,'$.a'); DROP TABLE users;'')
       = Inl (InvalidJsonStatement ''json_extract(col,'$.a'); DROP TABLE users;'')
   \<and> checkValidJsonStatement (String ''json_extract(col,'$.a') ((1'')
       = Inl (InvalidJsonStatement ''json_extract(col,'$.a') ((1'')"
  by code_simp

end
